theory Spec2Isabelle
  imports Complex_Main "HOL-Library.Multiset" "HOL-Library.Log_Nat"
begin

section \<open>Python values and errors\<close>

text \<open>
  The exceptions the module can raise.  \<open>ValueError\<close> is raised by
  \<open>create_rs_generator\<close> itself, by NumPy for a seed out of range and by the array
  engine when a shape or a chunk layout is inconsistent; \<open>ZeroDivisionError\<close> by a
  true division by zero and \<open>OverflowError\<close> by one whose result is too large for a
  float; \<open>TypeError\<close> by \<open>+\<close> on a value that is not a string; \<open>IndexError\<close> by an
  index array that leaves the axis, and \<open>AttributeError\<close> by a method call on an object
  that has no such method.
\<close>

datatype error =
  ValueError | ZeroDivisionError | OverflowError | TypeError | IndexError | AttributeError

definition then_do :: "error + 'a \<Rightarrow> ('a \<Rightarrow> error + 'b) \<Rightarrow> error + 'b" where
  "then_do r f = (case r of Inl e \<Rightarrow> Inl e | Inr x \<Rightarrow> f x)"

text \<open>
  Python's \<open>a / b\<close> on two integers is true division: the result is the double nearest
  to the exact quotient (ties go to the even significand), and \<open>OverflowError\<close> when
  that is beyond the largest double.  A double is represented by the rational number it
  denotes.  \<open>floor_log2 x\<close> is the exponent \<open>e\<close> with \<open>2 ^ e \<le> x < 2 ^ (e + 1)\<close> of a
  positive \<open>x\<close>; a double has 53 significant bits, and below \<open>2 ^ (- 1022)\<close> the
  spacing of the doubles stays \<open>2 ^ (- 1074)\<close>.
\<close>

definition round_half_even :: "rat \<Rightarrow> int" where
  "round_half_even y =
     (let f = \<lfloor>y\<rfloor>; d = y - of_int f
      in if d < 1 / 2 then f else if 1 / 2 < d then f + 1 else if even f then f else f + 1)"

definition floor_log2 :: "rat \<Rightarrow> int" where
  "floor_log2 x =
     (let e = bitlen (fst (quotient_of x)) - bitlen (snd (quotient_of x))
      in if x < power_int 2 e then e - 1 else e)"

definition to_double :: "rat \<Rightarrow> error + rat" where
  "to_double x =
     (if x = 0 then Inr 0
      else let e = max (floor_log2 \<bar>x\<bar>) (- 1022);
               ulp = power_int 2 (e - 52);
               r = of_int (round_half_even (\<bar>x\<bar> / ulp)) * ulp
           in if power_int 2 1024 \<le> r then Inl OverflowError else Inr (sgn x * r))"

definition truediv :: "int \<Rightarrow> int \<Rightarrow> error + rat" where
  "truediv a b = (if b = 0 then Inl ZeroDivisionError else to_double (of_int a / of_int b))"

text \<open>\<open>int(q)\<close> truncates towards zero; \<open>a % b\<close> is the remainder of the floor division.\<close>

definition py_int :: "rat \<Rightarrow> int" where
  "py_int q = (if q < 0 then \<lceil>q\<rceil> else \<lfloor>q\<rfloor>)"

definition py_mod :: "int \<Rightarrow> int \<Rightarrow> error + int" where
  "py_mod a b = (if b = 0 then Inl ZeroDivisionError else Inr (a mod b))"

text \<open>
  A chunk layout for one axis, as the module writes it: \<open>-1\<close> (one block for the whole
  axis), \<open>None\<close> (keep the layout), a block length, or the tuple of all block lengths.
\<close>

datatype chunk_spec = Whole | Keep | Size int | Blocks "int list"

text \<open>
  A request to a distributed random source: \<open>standard_normal(shape, chunks, dtype)\<close>
  (\<open>chunks\<close> is \<open>None\<close> when the call leaves it out) or
  \<open>normal(scale, size, dtype)\<close>.
\<close>

datatype request =
    StandardNormal "nat list" "chunk_spec list option" string
  | Normal real "nat list" string

text \<open>
  The values that can be passed as \<open>random_state\<close>.  \<open>DaskRandomState seed backend drawn\<close>
  is the object \<open>da.random.RandomState(seed=seed, RandomState=backend)\<close> after it has
  served the requests \<open>drawn\<close>; \<open>CupyRandomState s\<close> is an instance of
  \<open>cupy.random.generator.RandomState\<close> in state \<open>s\<close>, \<open>CupyRandomStateClass\<close> the class
  itself.  \<open>PyObject m n\<close> is any other object: \<open>m\<close> is what \<open>__module__\<close> gives
  on it (no such attribute, a value that is not a string, or a string), \<open>n\<close> is
  \<open>type(x).__name__\<close>.  Nothing keeps such an object from carrying the module and the
  name of one of the other kinds.  An \<open>int\<close> is exactly of type \<open>int\<close>: a \<open>bool\<close> or a
  NumPy integer is a \<open>PyObject\<close>.
\<close>

datatype module_attr = NoModule | NonStringModule | Module string

datatype py_value =
    PyNone
  | PyInt int
  | CupyRandomState nat
  | CupyRandomStateClass
  | DaskRandomState py_value py_value "request list"
  | PyObject module_attr string

fun py_module :: "py_value \<Rightarrow> module_attr" where
  "py_module PyNone = NoModule"
| "py_module (PyInt i) = NoModule"
| "py_module (CupyRandomState s) = Module ''cupy.random.generator''"
| "py_module CupyRandomStateClass = Module ''cupy.random.generator''"
| "py_module (DaskRandomState seed backend drawn) = Module ''dask.array.random''"
| "py_module (PyObject m n) = m"

fun py_type_name :: "py_value \<Rightarrow> string" where
  "py_type_name PyNone = ''NoneType''"
| "py_type_name (PyInt i) = ''int''"
| "py_type_name (CupyRandomState s) = ''RandomState''"
| "py_type_name CupyRandomStateClass = ''type''"
| "py_type_name (DaskRandomState seed backend drawn) = ''RandomState''"
| "py_type_name (PyObject m n) = n"

section \<open>The array engine\<close>

text \<open>
  The array engine (Dask arrays of CuPy blocks) is not part of the module.  This section
  states what its operations, as the module uses them, do to shapes and entries.  A
  distributed array is described by its shape and its entries (a function of the index
  vector).  The engine is lazy: the module only composes descriptions.  The chunk layout
  of an array does not influence its shape.  Entries are real numbers: the rounding of
  floating point arithmetic on entries is not modelled.  Of the engine's validation of
  its arguments only what bears on shapes is stated: a shape is not negative, an explicit
  tuple of block lengths adds up to its axis, and the shapes of operands fit.  Whether
  the engine accepts a dtype, a single block length or the backend of a random source is
  not stated; the results below that say that a call returns either leave these at the
  defaults of the module or assume that the draws have succeeded.
\<close>

record ndarray =
  shape :: "nat list"
  elem :: "nat list \<Rightarrow> real"

text \<open>
  What the module cannot determine is a parameter: the variates a random source returns
  for a request (they depend on the source, with the requests it has served, and on the
  request), the entries of the orthonormal factor of a QR factorisation, and the error,
  if any, with which NumPy refuses a seed that is neither \<open>None\<close> nor an integer.  For
  an unseeded source the variates stand for what the entropy of the run makes them.
\<close>

record engine =
  variates :: "py_value \<Rightarrow> request \<Rightarrow> nat list \<Rightarrow> real"
  qr_factor :: "ndarray \<Rightarrow> nat list \<Rightarrow> real"
  seed_error :: "py_value \<Rightarrow> error option"

section \<open>The random source resolver\<close>

text \<open>
  The first four lines of \<open>create_rs_generator\<close>: the string
  \<open>module + '.' + type name\<close>, or the type name alone when the value has no
  \<open>__module__\<close>.  When \<open>__module__\<close> is not a string, \<open>+\<close> raises \<open>TypeError\<close>.
\<close>

definition rs_type_of :: "py_value \<Rightarrow> error + string" where
  "rs_type_of random_state =
     (case py_module random_state of
        Module m \<Rightarrow> Inr (m @ ''.'' @ py_type_name random_state)
      | NonStringModule \<Rightarrow> Inl TypeError
      | NoModule \<Rightarrow> Inr (py_type_name random_state))"

text \<open>
  \<open>da.random.RandomState(seed=seed, RandomState=backend)\<close> hands the seed to
  \<open>np.random.RandomState\<close>, which accepts \<open>None\<close> and an integer from \<open>0\<close> to
  \<open>2 ^ 32 - 1\<close> and raises \<open>ValueError\<close> for any other integer.  What it answers to
  another object is the engine's.
\<close>

definition seed_verdict :: "engine \<Rightarrow> py_value \<Rightarrow> error option" where
  "seed_verdict eng seed =
     (case seed of
        PyNone \<Rightarrow> None
      | PyInt i \<Rightarrow> if 0 \<le> i \<and> i < 2 ^ 32 then None else Some ValueError
      | _ \<Rightarrow> seed_error eng seed)"

definition dask_random_state :: "engine \<Rightarrow> py_value \<Rightarrow> py_value \<Rightarrow> error + py_value" where
  "dask_random_state eng seed backend =
     (case seed_verdict eng seed of
        Some e \<Rightarrow> Inl e
      | None \<Rightarrow> Inr (DaskRandomState seed backend []))"

text \<open>\<open>create_rs_generator(random_state)\<close>.\<close>

definition create_rs_generator :: "engine \<Rightarrow> py_value \<Rightarrow> error + py_value" where
  "create_rs_generator eng random_state =
     then_do (rs_type_of random_state) (\<lambda>rs_type.
       if rs_type = ''NoneType'' \<or> rs_type = ''int''
       then dask_random_state eng random_state CupyRandomStateClass
       else if rs_type = ''cupy.random.generator.RandomState''
       then dask_random_state eng PyNone random_state
       else if rs_type = ''dask.array.random.RandomState''
       then Inr random_state
       else Inl ValueError)"

section \<open>The operations of the array engine\<close>

text \<open>An explicit tuple of block lengths has to add up to the length of its axis.\<close>

fun chunks_fit :: "nat \<Rightarrow> chunk_spec \<Rightarrow> bool" where
  "chunks_fit d (Blocks bs) = (sum_list bs = int d)"
| "chunks_fit d c = True"

definition layout_fits :: "nat list \<Rightarrow> chunk_spec list option \<Rightarrow> bool" where
  "layout_fits shp chunks =
     (case chunks of None \<Rightarrow> True | Some cs \<Rightarrow> list_all2 chunks_fit shp cs)"

text \<open>
  \<open>rs.standard_normal(shape, chunks=chunks, dtype=dtype)\<close> and
  \<open>rs.normal(scale=scale, size=size, dtype=dtype)\<close>: the array of variates and the
  random source after the request (the Python object is updated in place).
\<close>

definition serve :: "engine \<Rightarrow> py_value \<Rightarrow> request \<Rightarrow> nat list \<Rightarrow> error + ndarray \<times> py_value" where
  "serve eng rs req shp =
     (case rs of
        DaskRandomState seed backend drawn \<Rightarrow>
          Inr (\<lparr>shape = shp, elem = variates eng rs req\<rparr>,
               DaskRandomState seed backend (drawn @ [req]))
      | _ \<Rightarrow> Inl AttributeError)"

definition standard_normal ::
  "engine \<Rightarrow> py_value \<Rightarrow> int list \<Rightarrow> chunk_spec list option \<Rightarrow> string
     \<Rightarrow> error + ndarray \<times> py_value" where
  "standard_normal eng rs shp chunks dtype =
     (if \<exists>d \<in> set shp. d < 0 then Inl ValueError
      else if \<not> layout_fits (map nat shp) chunks then Inl ValueError
      else serve eng rs (StandardNormal (map nat shp) chunks dtype) (map nat shp))"

definition normal ::
  "engine \<Rightarrow> py_value \<Rightarrow> real \<Rightarrow> nat list \<Rightarrow> string \<Rightarrow> error + ndarray \<times> py_value" where
  "normal eng rs scale shp dtype = serve eng rs (Normal scale shp dtype) shp"

text \<open>
  \<open>da.linalg.qr(a)[0]\<close>: the orthonormal factor of an \<open>m \<times> k\<close> array.  Its columns
  are orthonormal vectors of length \<open>m\<close>; the engine returns the reduced factor, with
  \<open>m\<close> rows and \<open>min m k\<close> columns.
\<close>

definition qr_q :: "engine \<Rightarrow> ndarray \<Rightarrow> error + ndarray" where
  "qr_q eng a =
     (case shape a of
        [m, k] \<Rightarrow> Inr \<lparr>shape = [m, min m k], elem = qr_factor eng a\<rparr>
      | _ \<Rightarrow> Inl ValueError)"

text \<open>
  \<open>a.rechunk(chunks)\<close> changes the layout only, and so does
  \<open>da.from_array(a, chunks)\<close>, which is left out below.
\<close>

definition rechunk :: "ndarray \<Rightarrow> chunk_spec list \<Rightarrow> error + ndarray" where
  "rechunk a chunks = (if list_all2 chunks_fit (shape a) chunks then Inr a else Inl ValueError)"

text \<open>Elementwise operations with a scalar, and of two arrays of the same shape.\<close>

definition map_elems :: "(real \<Rightarrow> real) \<Rightarrow> ndarray \<Rightarrow> ndarray" where
  "map_elems f a = a\<lparr>elem := (\<lambda>idx. f (elem a idx))\<rparr>"

definition add_arrays :: "ndarray \<Rightarrow> ndarray \<Rightarrow> error + ndarray" where
  "add_arrays a b =
     (if shape a = shape b then Inr (a\<lparr>elem := (\<lambda>idx. elem a idx + elem b idx)\<rparr>)
      else Inl ValueError)"

text \<open>\<open>cp.arange(n, dtype=cp.float64)\<close>; it is empty when \<open>n\<close> is negative.\<close>

definition arange :: "int \<Rightarrow> ndarray" where
  "arange n = \<lparr>shape = [nat n], elem = (\<lambda>idx. case idx of [i] \<Rightarrow> real i | _ \<Rightarrow> 0)\<rparr>"

text \<open>
  \<open>u * s\<close> for a matrix \<open>u\<close> and a vector \<open>s\<close>, with NumPy's broadcasting: the length
  of \<open>s\<close> and the number of columns of \<open>u\<close> agree, or one of them is 1.
\<close>

definition scale_columns :: "ndarray \<Rightarrow> ndarray \<Rightarrow> error + ndarray" where
  "scale_columns u s =
     (case (shape u, shape s) of
        ([m, k], [n]) \<Rightarrow>
          if k = n \<or> k = 1 \<or> n = 1
          then Inr \<lparr>shape = [m, max k n],
                    elem = (\<lambda>idx. case idx of
                                     [i, j] \<Rightarrow> elem u [i, if k = 1 then 0 else j]
                                               * elem s [if n = 1 then 0 else j]
                                   | _ \<Rightarrow> 0)\<rparr>
          else Inl ValueError
      | _ \<Rightarrow> Inl ValueError)"

text \<open>\<open>da.dot(a, b)\<close> of two matrices.\<close>

definition dot :: "ndarray \<Rightarrow> ndarray \<Rightarrow> error + ndarray" where
  "dot a b =
     (case (shape a, shape b) of
        ([m, k], [k', n]) \<Rightarrow>
          if k = k'
          then Inr \<lparr>shape = [m, n],
                    elem = (\<lambda>idx. case idx of
                                     [i, j] \<Rightarrow> (\<Sum>l \<leftarrow> [0..<k]. elem a [i, l] * elem b [l, j])
                                   | _ \<Rightarrow> 0)\<rparr>
          else Inl ValueError
      | _ \<Rightarrow> Inl ValueError)"

text \<open>
  \<open>a[:, :k]\<close>: the first \<open>k\<close> columns; a negative \<open>k\<close> counts from the end, as a Python
  slice does.
\<close>

definition first_columns :: "ndarray \<Rightarrow> int \<Rightarrow> error + ndarray" where
  "first_columns a k =
     (case shape a of
        [m, n] \<Rightarrow>
          let stop = (if k < 0 then max 0 (int n + k) else min k (int n))
          in Inr (a\<lparr>shape := [m, nat stop]\<rparr>)
      | _ \<Rightarrow> Inl IndexError)"

text \<open>\<open>a[indices, :]\<close> and \<open>a[:, indices]\<close> for an array of indices.\<close>

definition take_rows :: "ndarray \<Rightarrow> nat list \<Rightarrow> error + ndarray" where
  "take_rows a indices =
     (case shape a of
        [m, n] \<Rightarrow>
          if \<forall>i \<in> set indices. i < m
          then Inr \<lparr>shape = [length indices, n],
                    elem = (\<lambda>idx. case idx of
                                     [i, j] \<Rightarrow> if i < length indices
                                               then elem a [indices ! i, j] else 0
                                   | _ \<Rightarrow> 0)\<rparr>
          else Inl IndexError
      | _ \<Rightarrow> Inl IndexError)"

definition take_columns :: "ndarray \<Rightarrow> nat list \<Rightarrow> error + ndarray" where
  "take_columns a indices =
     (case shape a of
        [m, n] \<Rightarrow>
          if \<forall>j \<in> set indices. j < n
          then Inr \<lparr>shape = [m, length indices],
                    elem = (\<lambda>idx. case idx of
                                     [i, j] \<Rightarrow> if j < length indices
                                               then elem a [i, indices ! j] else 0
                                   | _ \<Rightarrow> 0)\<rparr>
          else Inl IndexError
      | _ \<Rightarrow> Inl IndexError)"

text \<open>\<open>da.concatenate([a, b], axis=0)\<close> of two matrices.\<close>

definition concatenate :: "ndarray \<Rightarrow> ndarray \<Rightarrow> error + ndarray" where
  "concatenate a b =
     (case (shape a, shape b) of
        ([m, n], [m', n']) \<Rightarrow>
          if n = n'
          then Inr \<lparr>shape = [m + m', n],
                    elem = (\<lambda>idx. case idx of
                                     [i, j] \<Rightarrow> if i < m then elem a [i, j] else elem b [i - m, j]
                                   | _ \<Rightarrow> 0)\<rparr>
          else Inl ValueError
      | _ \<Rightarrow> Inl ValueError)"

text \<open>
  \<open>da.squeeze(a)\<close> removes every axis of length 1.  \<open>expand_index\<close> turns an index
  of the squeezed array into the index of the same entry of \<open>a\<close>; \<open>squeeze_index\<close> goes
  the other way.
\<close>

fun expand_index :: "nat list \<Rightarrow> nat list \<Rightarrow> nat list" where
  "expand_index [] idx = []"
| "expand_index (d # ds) idx =
     (if d = 1 then 0 # expand_index ds idx
      else (case idx of [] \<Rightarrow> [] | i # rest \<Rightarrow> i # expand_index ds rest))"

fun squeeze_index :: "nat list \<Rightarrow> nat list \<Rightarrow> nat list" where
  "squeeze_index (d # ds) (i # idx) =
     (if d = 1 then squeeze_index ds idx else i # squeeze_index ds idx)"
| "squeeze_index ds idx = []"

definition squeeze :: "ndarray \<Rightarrow> ndarray" where
  "squeeze a = \<lparr>shape = filter (\<lambda>d. d \<noteq> 1) (shape a),
                elem = (\<lambda>idx. elem a (expand_index (shape a) idx))\<rparr>"

text \<open>
  The process-wide NumPy generator behind \<open>np.random.permutation\<close>.  Its state is the
  sequence of results it is going to return: the \<open>k\<close>-th coming call, asked for \<open>n\<close>,
  returns \<open>st k n\<close>.  NumPy returns a rearrangement of \<open>0, ..., n - 1\<close>.
\<close>

type_synonym numpy_state = "nat \<Rightarrow> nat \<Rightarrow> nat list"

definition permutation :: "numpy_state \<Rightarrow> int \<Rightarrow> error + nat list \<times> numpy_state" where
  "permutation st n =
     (if n < 0 then Inl ValueError else Inr (st 0 (nat n), (\<lambda>k. st (Suc k))))"

definition valid_numpy_state :: "numpy_state \<Rightarrow> bool" where
  "valid_numpy_state st = (\<forall>k n. mset (st k n) = mset [0..<n])"


section \<open>Partition sizing\<close>

text \<open>
  \<open>generate_chunks_for_qr(total_size, min_size, n_parts)\<close>, the local function of
  \<open>make_low_rank_matrix\<close>.  \<open>range(n_partitions - 1)\<close> is empty when its argument is
  not positive, which \<open>nat\<close> gives.
\<close>

definition generate_chunks_for_qr :: "int \<Rightarrow> int \<Rightarrow> int \<Rightarrow> error + int list" where
  "generate_chunks_for_qr total_size min_size n_parts =
     then_do (truediv total_size n_parts) (\<lambda>q1.
       let n_total_per_part = max 1 (py_int q1);
           min_size = (if n_total_per_part > min_size then n_total_per_part else min_size)
       in then_do (truediv total_size min_size) (\<lambda>q2.
            let n_partitions = py_int (max 1 q2)
            in then_do (py_mod total_size (n_partitions * min_size)) (\<lambda>rest.
                 Inr (replicate (nat (n_partitions - 1)) min_size @ [min_size + rest]))))"

text \<open>The effective minimum block size, in the words of the specification.\<close>

definition effective_min :: "int \<Rightarrow> int \<Rightarrow> int \<Rightarrow> int" where
  "effective_min total_size min_block_size n_parts =
     max min_block_size (max 1 (total_size div n_parts))"

section \<open>Low-rank matrix synthesis\<close>

text \<open>
  The singular-value profile of \<open>make_low_rank_matrix\<close>: \<open>sing_ind\<close>, \<open>tmp\<close>,
  \<open>low_rank\<close>, \<open>tail\<close> and \<open>local_s\<close> as the source computes them, array by array.
  (A division by \<open>effective_rank = 0\<close> gives infinities in CuPy and 0 here.)
\<close>

definition singular_profile :: "int \<Rightarrow> int \<Rightarrow> real \<Rightarrow> error + ndarray" where
  "singular_profile n effective_rank tail_strength =
     (let sing_ind = arange n;
          tmp = map_elems (\<lambda>x. x / real_of_int effective_rank) sing_ind;
          low_rank = map_elems (\<lambda>x. (1 - tail_strength) * x)
                       (map_elems exp (map_elems (\<lambda>x. - 1.0 * x) (map_elems (\<lambda>x. x ^ 2) tmp)));
          tail = map_elems (\<lambda>x. tail_strength * x)
                   (map_elems exp (map_elems (\<lambda>x. - 0.1 * x) tmp))
      in add_arrays low_rank tail)"

text \<open>\<open>max(1, int(n_samples / n_parts))\<close>, the default of \<open>n_samples_per_part\<close>.\<close>

definition samples_per_part :: "int option \<Rightarrow> int \<Rightarrow> int \<Rightarrow> error + int" where
  "samples_per_part n_samples_per_part n_samples n_parts =
     (case n_samples_per_part of
        None \<Rightarrow> then_do (truediv n_samples n_parts) (\<lambda>q. Inr (max 1 (py_int q)))
      | Some k \<Rightarrow> Inr k)"

text \<open>
  \<open>make_low_rank_matrix\<close>.  It returns the matrix; the second component is the random
  source after the call, which Python updates in place and \<open>make_regression\<close> goes on
  using.
\<close>

definition make_low_rank_matrix ::
  "engine \<Rightarrow> int \<Rightarrow> int \<Rightarrow> int \<Rightarrow> real \<Rightarrow> py_value \<Rightarrow> int \<Rightarrow> int option \<Rightarrow> string
     \<Rightarrow> error + ndarray \<times> py_value" where
  "make_low_rank_matrix eng n_samples n_features effective_rank tail_strength random_state
       n_parts n_samples_per_part dtype =
     then_do (create_rs_generator eng random_state) (\<lambda>rs.
     let n = min n_samples n_features in
     then_do (generate_chunks_for_qr n_samples n n_parts) (\<lambda>chunks1.
     then_do (standard_normal eng rs [n_samples, n] (Some [Blocks chunks1, Whole]) dtype)
       (\<lambda>(m1, rs).
     then_do (qr_q eng m1) (\<lambda>u.
     then_do (generate_chunks_for_qr n_features n n_parts) (\<lambda>chunks2.
     then_do (standard_normal eng rs [n, n_features] (Some [Whole, Blocks chunks2]) dtype)
       (\<lambda>(m2, rs).
     then_do (qr_q eng m2) (\<lambda>v.
     then_do (samples_per_part n_samples_per_part n_samples n_parts) (\<lambda>n_samples_per_part.
     then_do (rechunk u [Size n_samples_per_part, Whole]) (\<lambda>u.
     then_do (rechunk v [Size n_samples_per_part, Whole]) (\<lambda>v.
     then_do (singular_profile n effective_rank tail_strength) (\<lambda>s.
     then_do (scale_columns u s) (\<lambda>u.
     then_do (dot u v) (\<lambda>X. Inr (X, rs))))))))))))))"

section \<open>Regression dataset assembly\<close>

text \<open>
  \<open>make_regression\<close> up to and including the noise (the statements before
  \<open>if shuffle\<close>): the feature matrix, the targets and the coefficients, all as matrices.
\<close>

definition generate_data ::
  "engine \<Rightarrow> int \<Rightarrow> int \<Rightarrow> int \<Rightarrow> int \<Rightarrow> real \<Rightarrow> int option \<Rightarrow> real \<Rightarrow> real
     \<Rightarrow> py_value \<Rightarrow> int \<Rightarrow> int option \<Rightarrow> string \<Rightarrow> error + ndarray \<times> ndarray \<times> ndarray" where
  "generate_data eng n_samples n_features n_informative n_targets bias effective_rank
       tail_strength noise random_state n_parts n_samples_per_part dtype =
     (let n_informative = min n_features n_informative in
      then_do (create_rs_generator eng random_state) (\<lambda>rs.
      then_do (samples_per_part n_samples_per_part n_samples n_parts) (\<lambda>n_samples_per_part.
      let layout = [Size n_samples_per_part, Blocks [n_informative, n_features - n_informative]] in
      then_do
        (case effective_rank of
           None \<Rightarrow> standard_normal eng rs [n_samples, n_features] (Some layout) dtype
         | Some effective_rank \<Rightarrow>
             then_do (make_low_rank_matrix eng n_samples n_features effective_rank
                        tail_strength rs n_parts None dtype) (\<lambda>(X, rs).
             then_do (rechunk X layout) (\<lambda>X. Inr (X, rs))))
        (\<lambda>(X, rs).
      then_do (standard_normal eng rs [n_informative, n_targets]
                 (Some [Size n_samples_per_part, Whole]) dtype) (\<lambda>(g, rs).
      let ground_truth = map_elems (\<lambda>x. 100.0 * x) g in
      then_do (first_columns X n_informative) (\<lambda>X_informative.
      then_do (dot X_informative ground_truth) (\<lambda>p.
      let y = map_elems (\<lambda>x. x + bias) p in
      then_do (rechunk X [Keep, Whole]) (\<lambda>X.
      then_do
        (if n_informative \<noteq> n_features
         then then_do (standard_normal eng rs [n_features - n_informative, n_targets]
                         None dtype) (\<lambda>(z, rs).
              let zeroes = map_elems (\<lambda>x. 0.0 * x) z in
              then_do (concatenate ground_truth zeroes) (\<lambda>ground_truth.
              then_do (rechunk ground_truth [Whole, Whole]) (\<lambda>ground_truth.
              Inr (ground_truth, rs))))
         else Inr (ground_truth, rs))
        (\<lambda>(ground_truth, rs).
      then_do
        (if noise > 0.0
         then then_do (normal eng rs noise (shape y) dtype) (\<lambda>(e, rs). add_arrays y e)
         else Inr y)
        (\<lambda>y. Inr (X, y, ground_truth)))))))))))"

text \<open>
  The body of \<open>if shuffle\<close>: both permutations come from the process-wide NumPy
  generator, not from the random source \<open>rs\<close>.
\<close>

definition permute_data ::
  "numpy_state \<Rightarrow> int \<Rightarrow> int \<Rightarrow> ndarray \<times> ndarray \<times> ndarray
     \<Rightarrow> error + ndarray \<times> ndarray \<times> ndarray" where
  "permute_data st n_samples n_features d =
     (case d of (X, y, ground_truth) \<Rightarrow>
        then_do (permutation st n_samples) (\<lambda>(samples_indices, st).
        then_do (take_rows X samples_indices) (\<lambda>X.
        then_do (take_rows y samples_indices) (\<lambda>y.
        then_do (permutation st n_features) (\<lambda>(features_indices, st).
        then_do (take_columns X features_indices) (\<lambda>X.
        then_do (take_rows ground_truth features_indices) (\<lambda>ground_truth.
        Inr (X, y, ground_truth))))))))"

text \<open>
  The arguments of \<open>make_regression\<close> with their defaults, and what it returns:
  \<open>(X, y)\<close>, or \<open>(X, y, coefficients)\<close> when \<open>coef\<close> is set.
\<close>

record regression_args =
  n_samples :: int
  n_features :: int
  n_informative :: int
  n_targets :: int
  bias :: real
  effective_rank :: "int option"
  tail_strength :: real
  noise :: real
  shuffle :: bool
  coef :: bool
  random_state :: py_value
  n_parts :: int
  n_samples_per_part :: "int option"
  order :: string
  dtype :: string

definition default_args :: regression_args where
  "default_args =
     \<lparr>n_samples = 100, n_features = 100, n_informative = 10, n_targets = 1, bias = 0.0,
      effective_rank = None, tail_strength = 0.5, noise = 0.0, shuffle = False, coef = False,
      random_state = PyNone, n_parts = 1, n_samples_per_part = None, order = ''F'',
      dtype = ''float32''\<rparr>"

record regression_result =
  result_X :: ndarray
  result_y :: ndarray
  result_coef :: "ndarray option"

text \<open>
  \<open>make_regression\<close>.  The state in which the process-wide generator is left is not
  part of what the function returns.
\<close>

definition make_regression ::
  "engine \<Rightarrow> regression_args \<Rightarrow> numpy_state \<Rightarrow> error + regression_result" where
  "make_regression eng a st =
     then_do (generate_data eng (n_samples a) (n_features a) (n_informative a) (n_targets a)
                (bias a) (effective_rank a) (tail_strength a) (noise a) (random_state a)
                (n_parts a) (n_samples_per_part a) (dtype a)) (\<lambda>d.
     then_do (if shuffle a then permute_data st (n_samples a) (n_features a) d else Inr d)
       (\<lambda>(X, y, ground_truth).
     let y = squeeze y in
     if coef a
     then Inr \<lparr>result_X = X, result_y = y, result_coef = Some (squeeze ground_truth)\<rparr>
     else Inr \<lparr>result_X = X, result_y = y, result_coef = None\<rparr>))"

section \<open>Observations and sample inputs\<close>

text \<open>The four type names that \<open>create_rs_generator\<close> accepts.\<close>

definition accepted_type_names :: "string list" where
  "accepted_type_names =
     [''NoneType'', ''int'', ''cupy.random.generator.RandomState'',
      ''dask.array.random.RandomState'']"

text \<open>
  What materialising an array shows: its entries in row-major order, and the rows of a
  matrix.
\<close>

fun indices :: "nat list \<Rightarrow> nat list list" where
  "indices [] = [[]]"
| "indices (d # ds) = concat (map (\<lambda>i. map ((#) i) (indices ds)) [0..<d])"

definition entries :: "ndarray \<Rightarrow> real list" where
  "entries a = map (elem a) (indices (shape a))"

definition matrix_rows :: "ndarray \<Rightarrow> real list list" where
  "matrix_rows a =
     (case shape a of
        [m, n] \<Rightarrow> map (\<lambda>i. map (\<lambda>j. elem a [i, j]) [0..<n]) [0..<m]
      | _ \<Rightarrow> [])"

text \<open>
  Sample inputs for the concrete evaluations below: an engine whose variate at \<open>[i, j]\<close>
  is \<open>1 + i + j\<close> (and whose NumPy refuses every seed that is not \<open>None\<close> or an
  integer), and two states of the process-wide generator, one that returns the identity
  and one that returns the reversal.
\<close>

definition sample_engine :: engine where
  "sample_engine =
     \<lparr>variates = (\<lambda>rs req idx. 1 + real (sum_list idx)), qr_factor = (\<lambda>a idx. 1),
      seed_error = (\<lambda>seed. Some TypeError)\<rparr>"

definition identity_state :: numpy_state where
  "identity_state = (\<lambda>k n. [0..<n])"

definition reversing_state :: numpy_state where
  "reversing_state = (\<lambda>k n. rev [0..<n])"

section \<open>Properties of the true division\<close>

lemma then_do_Inl [simp]: "then_do (Inl e) f = Inl e"
  by (simp add: then_do_def)

lemma then_do_Inr [simp]: "then_do (Inr x) f = f x"
  by (simp add: then_do_def)

lemma round_half_even_ge: "of_int N \<le> y \<Longrightarrow> N \<le> round_half_even y"
proof -
  assume "of_int N \<le> y"
  then have "N \<le> \<lfloor>y\<rfloor>" by (simp add: le_floor_iff)
  moreover have "\<lfloor>y\<rfloor> \<le> round_half_even y"
    unfolding round_half_even_def Let_def by auto
  ultimately show ?thesis by simp
qed

lemma round_half_even_le: "y \<le> of_int N \<Longrightarrow> round_half_even y \<le> N"
proof -
  assume y: "y \<le> of_int N"
  show ?thesis
  proof (cases "y = of_int N")
    case True
    then show ?thesis by (simp add: round_half_even_def)
  next
    case False
    then have "y < of_int N" using y by simp
    then have "\<lfloor>y\<rfloor> < N" by (simp add: floor_less_iff)
    then show ?thesis unfolding round_half_even_def Let_def by auto
  qed
qed

lemma round_half_even_less:
  assumes "y < of_int N - 1 / 2"
  shows "round_half_even y < N"
proof -
  have "y < of_int N" using assms by simp
  then have f: "\<lfloor>y\<rfloor> < N" by (simp add: floor_less_iff)
  show ?thesis
  proof (cases "\<lfloor>y\<rfloor> = N - 1")
    case True
    then have "y - of_int \<lfloor>y\<rfloor> < 1 / 2" using assms by simp
    then show ?thesis using True unfolding round_half_even_def Let_def by simp
  next
    case False
    then have "\<lfloor>y\<rfloor> + 1 < N" using f by simp
    then show ?thesis unfolding round_half_even_def Let_def by auto
  qed
qed

text \<open>\<open>floor_log2\<close> is the binary exponent.\<close>

lemma floor_log2_bounds:
  assumes "0 < x"
  shows "power_int 2 (floor_log2 x) \<le> x" and "x < power_int 2 (floor_log2 x + 1)"
proof -
  obtain n d where q: "quotient_of x = (n, d)" by (cases "quotient_of x")
  then have d: "0 < d" and x: "x = of_int n / of_int d"
    using quotient_of_denom_pos quotient_of_div by blast+
  have n: "0 < n" using assms d x by (simp add: zero_less_divide_iff)
  define kn where "kn = bitlen n"
  define kd where "kd = bitlen d"
  have kn1: "1 \<le> kn" and kd1: "1 \<le> kd"
    using n d bitlen_eq_zero_iff[of n] bitlen_eq_zero_iff[of d] bitlen_nonneg[of n] bitlen_nonneg[of d]
    unfolding kn_def kd_def by linarith+
  have bn: "2 ^ nat (kn - 1) \<le> n" "n < 2 ^ nat kn"
    using bitlen_bounds[OF n] by (simp_all add: kn_def)
  have bd: "2 ^ nat (kd - 1) \<le> d" "d < 2 ^ nat kd"
    using bitlen_bounds[OF d] by (simp_all add: kd_def)
  have rn: "(power_int 2 (kn - 1) :: rat) \<le> of_int n" "(of_int n :: rat) < power_int 2 kn"
  proof -
    have "(of_int (2 ^ nat (kn - 1)) :: rat) \<le> of_int n" using bn(1) by (simp only: of_int_le_iff)
    then show "(power_int 2 (kn - 1) :: rat) \<le> of_int n"
      using kn1 by (simp add: power_int_nonneg_exp)
    have "(of_int n :: rat) < of_int (2 ^ nat kn)" using bn(2) by (simp only: of_int_less_iff)
    then show "(of_int n :: rat) < power_int 2 kn"
      using kn1 by (simp add: power_int_nonneg_exp)
  qed
  have rd: "(power_int 2 (kd - 1) :: rat) \<le> of_int d" "(of_int d :: rat) < power_int 2 kd"
  proof -
    have "(of_int (2 ^ nat (kd - 1)) :: rat) \<le> of_int d" using bd(1) by (simp only: of_int_le_iff)
    then show "(power_int 2 (kd - 1) :: rat) \<le> of_int d"
      using kd1 by (simp add: power_int_nonneg_exp)
    have "(of_int d :: rat) < of_int (2 ^ nat kd)" using bd(2) by (simp only: of_int_less_iff)
    then show "(of_int d :: rat) < power_int 2 kd"
      using kd1 by (simp add: power_int_nonneg_exp)
  qed
  have dpos: "(0::rat) < of_int d" using d by simp
  have lo: "(power_int 2 (kn - kd - 1) :: rat) \<le> x"
  proof -
    have "(power_int 2 (kn - kd - 1) :: rat) * of_int d \<le> power_int 2 (kn - kd - 1) * power_int 2 kd"
      using rd(2) by (intro mult_left_mono) simp_all
    also have "\<dots> = power_int 2 (kn - 1)"
      by (simp add: power_int_add[symmetric])
    also have "\<dots> \<le> of_int n" by (rule rn(1))
    finally show ?thesis using dpos by (simp add: x pos_le_divide_eq)
  qed
  have hi: "x < (power_int 2 (kn - kd + 1) :: rat)"
  proof -
    have "(of_int n :: rat) < power_int 2 kn" by (rule rn(2))
    also have "\<dots> = power_int 2 (kn - kd + 1) * power_int 2 (kd - 1)"
      by (simp add: power_int_add[symmetric])
    also have "\<dots> \<le> power_int 2 (kn - kd + 1) * of_int d"
      using rd(1) by (intro mult_left_mono) simp_all
    finally show ?thesis using dpos by (simp add: x pos_divide_less_eq)
  qed
  have e: "floor_log2 x = (if x < power_int 2 (kn - kd) then kn - kd - 1 else kn - kd)"
    by (simp add: floor_log2_def q kn_def kd_def Let_def)
  show "power_int 2 (floor_log2 x) \<le> x"
    using lo by (auto simp: e)
  show "x < power_int 2 (floor_log2 x + 1)"
    using hi by (auto simp: e)
qed

lemma to_double_minus: "to_double (- x) = map_sum id uminus (to_double x)"
  by (simp add: to_double_def Let_def)

lemma to_double_positive:
  assumes "0 < x" and "power_int 2 (max (floor_log2 x) (- 1022) - 52) = 1 / K"
    and "of_int (round_half_even (x * K)) / K < power_int 2 1024"
  shows "to_double x = Inr (of_int (round_half_even (x * K)) / K)"
  using assms by (simp add: to_double_def Let_def)

text \<open>
  Below \<open>2 ^ 53\<close> the rounding does not reach the next integer: the double of a
  quotient \<open>a / b\<close> lies between \<open>a div b\<close> and \<open>a div b + 1\<close>.
\<close>

lemma to_double_quotient:
  fixes a b :: int
  assumes a0: "0 \<le> a" and a53: "a < 2 ^ 53" and b1: "1 \<le> b"
  shows "\<exists>r. to_double (of_int a / of_int b) = Inr r \<and> of_int (a div b) \<le> r
           \<and> (b \<le> a \<longrightarrow> r < of_int (a div b) + 1) \<and> (a < b \<longrightarrow> r \<le> 1)"
proof (cases "a = 0")
  case True
  then show ?thesis using b1 by (simp add: to_double_def)
next
  case False
  define x :: rat where "x = of_int a / of_int b"
  define q where "q = a div b"
  have bpos: "(0::rat) < of_int b" using b1 by simp
  have apos: "0 < a" using False a0 by simp
  have xpos: "0 < x" using apos bpos by (simp add: x_def)
  have qx: "of_int q \<le> x"
  proof -
    have "a mod b \<ge> 0" using b1 by simp
    then have "q * b \<le> a"
      unfolding q_def using div_mult_mod_eq[of a b] by linarith
    then have "(of_int (q * b) :: rat) \<le> of_int a" by (simp only: of_int_le_iff)
    then show ?thesis using bpos by (simp add: x_def pos_le_divide_eq)
  qed
  have xq: "x \<le> of_int q + 1 - 1 / of_int b"
  proof -
    have "a mod b \<le> b - 1" using b1 by (simp add: zle_diff1_eq)
    then have "a \<le> q * b + (b - 1)"
      unfolding q_def by (metis add_left_mono div_mult_mod_eq)
    then have "(of_int a :: rat) \<le> of_int (q * b + (b - 1))" by (simp only: of_int_le_iff)
    then have "(of_int a :: rat) \<le> (of_int q + 1 - 1 / of_int b) * of_int b"
      using bpos by (simp add: algebra_simps)
    then show ?thesis using bpos by (simp add: x_def pos_divide_le_eq)
  qed
  have xa: "x \<le> of_int a"
  proof -
    have "(of_int a :: rat) * 1 \<le> of_int a * of_int b"
      using a0 b1 by (intro mult_left_mono) simp_all
    then show ?thesis using bpos by (simp add: x_def pos_divide_le_eq mult.commute)
  qed
  define e0 where "e0 = floor_log2 x"
  have lo: "power_int 2 e0 \<le> x" and hi: "x < power_int 2 (e0 + 1)"
    using floor_log2_bounds[OF xpos] by (simp_all add: e0_def)
  have "(power_int 2 e0 :: rat) < power_int 2 53"
  proof -
    have "(of_int a :: rat) < of_int (2 ^ 53)" using a53 by (simp only: of_int_less_iff)
    then show ?thesis using lo xa by simp
  qed
  then have e0_52: "e0 \<le> 52"
    using power_int_increasing[of 53 e0 "2::rat"] by (cases "e0 \<le> 52") (simp_all del: power_int_numeral)
  define e where "e = max e0 (- 1022)"
  have e52: "e \<le> 52" using e0_52 by (simp add: e_def)
  define k where "k = nat (52 - e)"
  define K :: rat where "K = 2 ^ k"
  have Kpos: "0 < K" by (simp add: K_def)
  have Kint: "K = of_int (2 ^ k)" by (simp add: K_def)
  have ulp: "(power_int 2 (e - 52) :: rat) = 1 / K"
  proof -
    have "(power_int 2 (e - 52) :: rat) = power_int 2 (- (52 - e))" by simp
    also have "\<dots> = 1 / power_int 2 (52 - e)" by (rule power_int_minus_divide)
    also have "\<dots> = 1 / K" using e52 by (simp add: K_def k_def power_int_nonneg_exp)
    finally show ?thesis .
  qed
  define m where "m = round_half_even (x * K)"
  define r where "r = of_int m / K"
  have m_lo: "q * 2 ^ k \<le> m"
  proof -
    have "of_int (q * 2 ^ k) \<le> x * K" using qx Kpos by (simp add: K_def)
    then show ?thesis unfolding m_def by (rule round_half_even_ge)
  qed
  then have r_lo: "of_int q \<le> r"
  proof -
    have "(of_int (q * 2 ^ k) :: rat) \<le> of_int m" using m_lo by (simp only: of_int_le_iff)
    then show ?thesis using Kpos by (simp add: r_def K_def pos_le_divide_eq)
  qed
  have r_hi: "r < of_int q + 1" if ba: "b \<le> a"
  proof -
    have "1 \<le> x"
    proof -
      have "(of_int b :: rat) \<le> of_int a" using ba by (simp only: of_int_le_iff)
      then show ?thesis using bpos by (simp add: x_def pos_le_divide_eq)
    qed
    then have "(1::rat) < power_int 2 (e0 + 1)" using hi by simp
    then have "0 \<le> e0"
      using power_int_increasing[of "e0 + 1" 0 "2::rat"] by (cases "0 \<le> e0") simp_all
    then have ee: "e = e0" by (simp add: e_def)
    have b2K: "of_int b < 2 * K"
    proof -
      have "power_int 2 e * (of_int b :: rat) \<le> of_int a"
        using lo bpos by (simp add: x_def ee pos_le_divide_eq)
      also have "\<dots> < of_int (2 ^ 53)" using a53 by (simp only: of_int_less_iff)
      also have "\<dots> = power_int 2 e * (2 * K)"
      proof -
        have "(2 * K :: rat) = power_int 2 (53 - e)"
          using e52 by (simp add: K_def k_def power_int_nonneg_exp nat_diff_distrib power_Suc[symmetric]
                Suc_nat_eq_nat_zadd1 del: power_Suc)
        then show ?thesis by (simp add: power_int_add[symmetric])
      qed
      finally show ?thesis by simp
    qed
    have "x * K \<le> (of_int q + 1 - 1 / of_int b) * K"
      using xq Kpos by (intro mult_right_mono) simp_all
    also have "\<dots> = of_int ((q + 1) * 2 ^ k) - K / of_int b"
      by (simp add: K_def algebra_simps)
    also have "\<dots> < of_int ((q + 1) * 2 ^ k) - 1 / 2"
    proof -
      have "1 / 2 < K / of_int b" using b2K bpos by (simp add: pos_less_divide_eq)
      then show ?thesis by simp
    qed
    finally have "m < (q + 1) * 2 ^ k" unfolding m_def by (rule round_half_even_less)
    then have "(of_int m :: rat) < of_int ((q + 1) * 2 ^ k)" by (simp only: of_int_less_iff)
    then show ?thesis using Kpos by (simp add: r_def K_def pos_divide_less_eq)
  qed
  have r_one: "r \<le> 1" if ab: "a < b"
  proof -
    have "x \<le> 1"
    proof -
      have "(of_int a :: rat) \<le> of_int b" using ab by simp
      then show ?thesis using bpos by (simp add: x_def pos_divide_le_eq)
    qed
    then have "x * K \<le> of_int (2 ^ k)" using Kpos by (simp add: K_def)
    then have "m \<le> 2 ^ k" unfolding m_def by (rule round_half_even_le)
    then have "(of_int m :: rat) \<le> of_int (2 ^ k)" by (simp only: of_int_le_iff)
    then show ?thesis using Kpos by (simp add: r_def K_def pos_divide_le_eq)
  qed
  have q53: "q < 2 ^ 53"
  proof -
    have "q \<le> a" using a0 b1 unfolding q_def
      using zdiv_mono2[of a 1 b] by simp
    then show ?thesis using a53 by simp
  qed
  have r_small: "r < power_int 2 1024"
  proof -
    have "r \<le> of_int q + 1"
    proof (cases "b \<le> a")
      case True
      then show ?thesis using r_hi by simp
    next
      case False
      then have "r \<le> 1" using r_one by simp
      moreover have "0 \<le> q" using a0 b1 by (simp add: q_def pos_imp_zdiv_nonneg_iff)
      ultimately show ?thesis by simp
    qed
    also have "\<dots> \<le> of_int (2 ^ 53)"
      using q53 by (metis of_int_1 of_int_add of_int_le_iff zless_imp_add1_zle)
    also have "\<dots> < (power_int 2 1024 :: rat)" by simp
    finally show ?thesis .
  qed
  have "to_double x = Inr r"
    unfolding r_def m_def
    using xpos ulp r_small[unfolded r_def m_def]
    unfolding e_def e0_def
    by (rule to_double_positive)
  then show ?thesis
    using r_lo r_hi r_one unfolding x_def q_def by blast
qed

lemma py_int_max_1: "py_int (max 1 q) = max 1 (py_int q)"
  unfolding py_int_def max_def
  by (auto simp: le_floor_iff floor_le_iff ceiling_le_iff not_le not_less)

text \<open>
  For a dividend below \<open>2 ^ 53\<close> the source's \<open>max(1, int(t / n))\<close> is the
  \<open>max(1, t // n)\<close> of the specification.
\<close>

lemma truediv_bounded:
  fixes t n :: int
  assumes t0: "0 \<le> t" and t53: "t < 2 ^ 53" and n0: "n \<noteq> 0"
  shows "\<exists>q. truediv t n = Inr q \<and> max 1 (py_int q) = max 1 (t div n)"
proof (cases "0 < n")
  case True
  then have n1: "1 \<le> n" by simp
  obtain r where r: "to_double (of_int t / of_int n) = Inr r"
    and lo: "of_int (t div n) \<le> r"
    and hi: "n \<le> t \<longrightarrow> r < of_int (t div n) + 1" and one: "t < n \<longrightarrow> r \<le> 1"
    using to_double_quotient[OF t0 t53 n1] by blast
  have d0: "0 \<le> t div n" using t0 n1 by (simp add: pos_imp_zdiv_nonneg_iff)
  then have "(0::rat) \<le> of_int (t div n)" by simp
  then have r0: "0 \<le> r" using lo by (rule order_trans)
  then have pi: "py_int r = \<lfloor>r\<rfloor>" by (simp add: py_int_def)
  have "max 1 \<lfloor>r\<rfloor> = max 1 (t div n)"
  proof (cases "n \<le> t")
    case True
    then have "\<lfloor>r\<rfloor> = t div n" using lo hi by (intro floor_unique) simp_all
    then show ?thesis by simp
  next
    case False
    then have "r \<le> 1" "t div n = 0" using one t0 by (simp_all add: div_pos_pos_trivial)
    moreover have "\<lfloor>r\<rfloor> \<le> 1" using \<open>r \<le> 1\<close> by (simp add: floor_le_iff)
    ultimately show ?thesis by simp
  qed
  then show ?thesis using r n0 by (simp add: truediv_def pi)
next
  case False
  then have n1: "1 \<le> - n" using n0 by simp
  obtain r where r: "to_double (of_int t / of_int (- n)) = Inr r"
    and lo: "of_int (t div (- n)) \<le> r"
    using to_double_quotient[OF t0 t53 n1] by blast
  have "0 \<le> t div (- n)" using t0 n1 by (simp add: pos_imp_zdiv_nonneg_iff)
  then have "(0::rat) \<le> of_int (t div (- n))" by simp
  then have r0: "0 \<le> r" using lo by (rule order_trans)
  have eq: "(of_int t / of_int n :: rat) = - (of_int t / of_int (- n))" by simp
  have "truediv t n = to_double (of_int t / of_int n)" using n0 by (simp add: truediv_def)
  also have "\<dots> = to_double (- (of_int t / of_int (- n)))" by (simp only: eq)
  also have "\<dots> = map_sum id uminus (to_double (of_int t / of_int (- n)))"
    by (rule to_double_minus)
  also have "\<dots> = Inr (- r)" by (simp only: r map_sum.simps)
  finally have td: "truediv t n = Inr (- r)" .
  have "py_int (- r) \<le> 0" using r0 by (auto simp: py_int_def ceiling_le_iff)
  moreover have "t div n \<le> 0" using t0 False n0 by (simp add: div_nonneg_neg_le0)
  ultimately show ?thesis using td by simp
qed

lemma samples_per_part_default:
  fixes ns np :: int
  assumes "0 \<le> ns" and "ns < 2 ^ 53" and "np \<noteq> 0"
  shows "samples_per_part None ns np = Inr (max 1 (ns div np))"
  using truediv_bounded[OF assms] by (auto simp: samples_per_part_def)

section \<open>Properties of the partition sizing\<close>

text \<open>
  On a positive total below \<open>2 ^ 53\<close> and a non-zero part count the source computes the
  scheme that the specification describes with floor divisions.
\<close>

lemma generate_chunks_for_qr_eq:
  assumes "1 \<le> t" and "t < 2 ^ 53" and "n \<noteq> 0"
  shows "generate_chunks_for_qr t ms n =
     (let em = effective_min t ms n; np = max 1 (t div em)
      in Inr (replicate (nat (np - 1)) em @ [em + t mod (np * em)]))"
proof -
  define em where "em = effective_min t ms n"
  have em1: "1 \<le> em" by (simp add: em_def effective_min_def)
  have t0: "0 \<le> t" using assms(1) by simp
  obtain q1 where a: "truediv t n = Inr q1" and q1: "max 1 (py_int q1) = max 1 (t div n)"
    using truediv_bounded[OF t0 assms(2,3)] by blast
  obtain q2 where b: "truediv t em = Inr q2" and q2: "max 1 (py_int q2) = max 1 (t div em)"
    using truediv_bounded[OF t0 assms(2), of em] em1 by auto
  have em: "(if ms < max 1 (t div n) then max 1 (t div n) else ms) = em"
    by (auto simp: em_def effective_min_def)
  have q: "py_int (max 1 q2) = max 1 (t div em)"
    by (simp add: py_int_max_1 q2)
  have nz: "max 1 (t div em) * em \<noteq> 0" using em1 by simp
  have c: "py_mod t (max 1 (t div em) * em) = Inr (t mod (max 1 (t div em) * em))"
    using nz by (simp add: py_mod_def)
  show ?thesis
    unfolding generate_chunks_for_qr_def a then_do_Inr Let_def q1 em b q c em_def[symmetric]
    by simp
qed


text \<open>
  The scheme of the specification adds up to the total when the effective minimum is at
  most the total.
\<close>

lemma scheme_sum:
  fixes t em :: int
  assumes em1: "1 \<le> em" and em_le: "em \<le> t"
  shows "sum_list (replicate (nat (max 1 (t div em) - 1)) em @ [em + t mod (max 1 (t div em) * em)]) = t"
    and "0 \<le> t mod (max 1 (t div em) * em)"
proof -
  define np where "np = max 1 (t div em)"
  have np: "np = t div em"
    using zdiv_mono1[of em t em] em1 em_le by (simp add: np_def)
  have np1: "1 \<le> np" by (simp add: np_def)
  define r where "r = t mod em"
  have r: "0 \<le> r" "r < em" using em1 by (simp_all add: r_def)
  have split: "t = r + np * em"
    by (simp add: r_def np)
  have "em * 1 \<le> em * np" using np1 em1 by (intro mult_left_mono) simp_all
  then have "em \<le> np * em" by (simp add: mult.commute)
  then have "r < np * em" using r by linarith
  then have rest: "t mod (np * em) = r"
    using r by (simp add: split)
  have "sum_list (replicate (nat (np - 1)) em @ [em + t mod (np * em)]) = (np - 1) * em + (em + r)"
    using np1 by (simp add: sum_list_replicate rest)
  then show "sum_list (replicate (nat (max 1 (t div em) - 1)) em @ [em + t mod (max 1 (t div em) * em)]) = t"
    unfolding np_def[symmetric] by (simp add: algebra_simps split)
  show "0 \<le> t mod (max 1 (t div em) * em)"
    unfolding np_def[symmetric] using r by (simp add: rest)
qed

lemma effective_min_bounds:
  fixes t ms n :: int
  assumes "1 \<le> t" and "1 \<le> n" and "ms \<le> t"
  shows "1 \<le> effective_min t ms n" and "effective_min t ms n \<le> t"
    and "ms \<le> effective_min t ms n"
proof -
  have "t div n \<le> t"
    using zdiv_mono2[of t 1 n] assms by simp
  then show "effective_min t ms n \<le> t" using assms by (simp add: effective_min_def)
  show "1 \<le> effective_min t ms n" "ms \<le> effective_min t ms n"
    by (simp_all add: effective_min_def)
qed

text \<open>
  C1 fails from \<open>2 ^ 53\<close> on, where the double of \<open>total_size / n_parts\<close> is not
  exact: for a total of \<open>2 ^ 54 - 1\<close>, minimum 1 and one part, \<open>int(total_size / 1)\<close>
  is \<open>2 ^ 54\<close>, and the function returns the single block \<open>2 ^ 55 - 1\<close>.
\<close>

theorem generate_chunks_for_qr_partition_counterexample:
  "(1::int) \<le> 2 ^ 54 - 1
   \<and> generate_chunks_for_qr (2 ^ 54 - 1) 1 1 = Inr [2 ^ 55 - 1]
   \<and> sum_list [2 ^ 55 - 1] \<noteq> (2 ^ 54 - 1 :: int)"
  by code_simp

text \<open>
  C1, amended.  For every \<open>total_size\<close> from 1 to \<open>2 ^ 53 - 1\<close>, \<open>n_parts \<ge> 1\<close> and
  \<open>min_block_size \<le> total_size\<close>, \<open>generate_chunks_for_qr\<close> returns a non-empty
  sequence of block sizes whose sum is \<open>total_size\<close>, and every block is at least the
  effective minimum block size, hence at least \<open>min_block_size\<close>.
\<close>

theorem generate_chunks_for_qr_partition:
  fixes total_size min_block_size n_parts :: int
  assumes "1 \<le> total_size" and "total_size < 2 ^ 53" and "1 \<le> n_parts"
    and "min_block_size \<le> total_size"
  shows "\<exists>chunks. generate_chunks_for_qr total_size min_block_size n_parts = Inr chunks
           \<and> chunks \<noteq> []
           \<and> sum_list chunks = total_size
           \<and> (\<forall>c \<in> set chunks. effective_min total_size min_block_size n_parts \<le> c)
           \<and> (\<forall>c \<in> set chunks. min_block_size \<le> c)"
proof -
  define em where "em = effective_min total_size min_block_size n_parts"
  define np where "np = max 1 (total_size div em)"
  define chunks where "chunks = replicate (nat (np - 1)) em @ [em + total_size mod (np * em)]"
  have em1: "1 \<le> em" and em_le: "em \<le> total_size" and em_ms: "min_block_size \<le> em"
    using effective_min_bounds[OF assms(1,3,4)] by (simp_all add: em_def)
  have eq: "generate_chunks_for_qr total_size min_block_size n_parts = Inr chunks"
    using assms by (simp add: generate_chunks_for_qr_eq Let_def em_def np_def chunks_def)
  have s: "sum_list chunks = total_size"
    using scheme_sum(1)[OF em1 em_le] by (simp add: chunks_def np_def)
  have "0 \<le> total_size mod (np * em)"
    using scheme_sum(2)[OF em1 em_le] by (simp add: np_def)
  then have ge: "\<forall>c \<in> set chunks. em \<le> c" by (auto simp: chunks_def)
  then have ge': "\<forall>c \<in> set chunks. min_block_size \<le> c" using em_ms by auto
  show ?thesis using eq s ge ge' by (auto simp: chunks_def em_def)
qed

theorem generate_chunks_for_qr_partition_witness:
  "(1::int) \<le> 100 \<and> (100::int) < 2 ^ 53 \<and> (1::int) \<le> 3 \<and> (30::int) \<le> 100
   \<and> (\<exists>chunks. generate_chunks_for_qr 100 30 3 = Inr chunks
         \<and> chunks \<noteq> []
         \<and> sum_list chunks = 100
         \<and> (\<forall>c \<in> set chunks. effective_min 100 30 3 \<le> c)
         \<and> (\<forall>c \<in> set chunks. 30 \<le> c))"
  using generate_chunks_for_qr_partition[of 100 3 30] by simp

text \<open>
  C5 fails from \<open>2 ^ 53\<close> on: for a total of \<open>2 ^ 56 - 3\<close>, minimum \<open>2 ^ 56 - 2\<close> and
  one part the effective minimum of the specification is \<open>2 ^ 56 - 2\<close>, but
  \<open>int(total_size / 1)\<close> is \<open>2 ^ 56\<close>, and the single block is \<open>2 ^ 57 - 3\<close>, not
  \<open>2 ^ 57 - 5\<close>.
\<close>

theorem generate_chunks_for_qr_degenerate_counterexample:
  "(1::int) \<le> 2 ^ 56 - 3
   \<and> (2 ^ 56 - 3 :: int) < effective_min (2 ^ 56 - 3) (2 ^ 56 - 2) 1
   \<and> generate_chunks_for_qr (2 ^ 56 - 3) (2 ^ 56 - 2) 1 = Inr [2 ^ 57 - 3]
   \<and> effective_min (2 ^ 56 - 3) (2 ^ 56 - 2) 1 + (2 ^ 56 - 3) = 2 ^ 57 - 5"
  by code_simp

text \<open>
  C5, amended.  When \<open>1 \<le> total_size < 2 ^ 53\<close> and \<open>total_size\<close> is below the
  effective minimum block size, \<open>generate_chunks_for_qr\<close> returns exactly one block, of
  size \<open>effective_min + total_size\<close>; it is larger than \<open>total_size\<close>, and so is the sum
  of the returned entries.  The effective minimum contains \<open>total_size // n_parts\<close>,
  which exists for \<open>n_parts \<noteq> 0\<close> only.
\<close>

theorem generate_chunks_for_qr_degenerate:
  fixes total_size min_block_size n_parts :: int
  assumes "1 \<le> total_size" and "total_size < 2 ^ 53" and "n_parts \<noteq> 0"
    and "total_size < effective_min total_size min_block_size n_parts"
  shows "generate_chunks_for_qr total_size min_block_size n_parts =
           Inr [effective_min total_size min_block_size n_parts + total_size]
         \<and> total_size < effective_min total_size min_block_size n_parts + total_size
         \<and> total_size < sum_list [effective_min total_size min_block_size n_parts + total_size]"
proof -
  define em where "em = effective_min total_size min_block_size n_parts"
  have em: "total_size < em" "1 \<le> em" using assms by (simp_all add: em_def effective_min_def)
  then have d: "total_size div em = 0" using assms by (simp add: div_pos_pos_trivial)
  have m: "total_size mod em = total_size" using em assms by simp
  show ?thesis
    using assms em by (simp add: generate_chunks_for_qr_eq Let_def em_def[symmetric] d m)
qed

theorem generate_chunks_for_qr_degenerate_witness:
  "(1::int) \<le> 5 \<and> (5::int) < 2 ^ 53 \<and> (3::int) \<noteq> 0 \<and> 5 < effective_min 5 10 3
   \<and> generate_chunks_for_qr 5 10 3 = Inr [effective_min 5 10 3 + 5]
   \<and> 5 < effective_min 5 10 3 + 5
   \<and> 5 < sum_list [effective_min 5 10 3 + 5]"
  using generate_chunks_for_qr_degenerate[of 5 3 10] by (simp add: effective_min_def)

section \<open>Properties of the random source resolver\<close>

text \<open>
  C9 fails for an integer that is not a seed: \<open>-1\<close> is an integer, and
  \<open>create_rs_generator\<close> raises \<open>ValueError\<close> on it.
\<close>

theorem create_rs_generator_seed_counterexample:
  "create_rs_generator sample_engine (PyInt (- 1)) = Inl ValueError"
  by (simp add: create_rs_generator_def rs_type_of_def dask_random_state_def seed_verdict_def)

text \<open>
  C9, amended.  For every \<open>random_state\<close> whose type name, as the resolver reads it
  (module, dot, name; the name alone without \<open>__module__\<close>), is none of the four
  accepted names, \<open>create_rs_generator\<close> raises \<open>ValueError\<close>, and \<open>TypeError\<close> when
  \<open>__module__\<close> is not a string; \<open>make_low_rank_matrix\<close> and \<open>make_regression\<close>
  resolve the random state before they ask the engine for anything, so they fail with
  that error whatever their other arguments are.  For \<open>None\<close>, for an integer from
  \<open>0\<close> to \<open>2 ^ 32 - 1\<close>, for a CuPy \<open>RandomState\<close> instance and for a Dask
  \<open>RandomState\<close> instance it returns a distributed random source; for an integer
  outside that range it raises \<open>ValueError\<close>.
\<close>

theorem create_rs_generator_dispatch:
  fixes n_samples n_features effective_rank n_parts :: int
    and tail_strength :: real and n_samples_per_part :: "int option" and dtype :: string
  shows "(py_module v = NonStringModule \<longrightarrow>
            create_rs_generator eng v = Inl TypeError
          \<and> make_low_rank_matrix eng n_samples n_features effective_rank tail_strength v n_parts
              n_samples_per_part dtype = Inl TypeError
          \<and> make_regression eng (a\<lparr>random_state := v\<rparr>) st = Inl TypeError)
       \<and> (\<forall>name. rs_type_of v = Inr name \<and> name \<notin> set accepted_type_names \<longrightarrow>
            create_rs_generator eng v = Inl ValueError
          \<and> make_low_rank_matrix eng n_samples n_features effective_rank tail_strength v n_parts
              n_samples_per_part dtype = Inl ValueError
          \<and> make_regression eng (a\<lparr>random_state := v\<rparr>) st = Inl ValueError)
       \<and> (v = PyNone \<longrightarrow>
            create_rs_generator eng v = Inr (DaskRandomState PyNone CupyRandomStateClass []))
       \<and> (\<forall>i. v = PyInt i \<and> 0 \<le> i \<and> i < 2 ^ 32 \<longrightarrow>
            create_rs_generator eng v = Inr (DaskRandomState (PyInt i) CupyRandomStateClass []))
       \<and> (\<forall>i. v = PyInt i \<and> \<not> (0 \<le> i \<and> i < 2 ^ 32) \<longrightarrow>
            create_rs_generator eng v = Inl ValueError)
       \<and> (\<forall>s. v = CupyRandomState s \<longrightarrow>
            create_rs_generator eng v = Inr (DaskRandomState PyNone (CupyRandomState s) []))
       \<and> (\<forall>seed backend drawn. v = DaskRandomState seed backend drawn \<longrightarrow>
            create_rs_generator eng v = Inr v)"
proof (intro conjI impI allI)
  assume "py_module v = NonStringModule"
  then show e: "create_rs_generator eng v = Inl TypeError"
    by (simp add: create_rs_generator_def rs_type_of_def)
  show "make_low_rank_matrix eng n_samples n_features effective_rank tail_strength v n_parts
          n_samples_per_part dtype = Inl TypeError"
    by (simp add: make_low_rank_matrix_def e)
  show "make_regression eng (a\<lparr>random_state := v\<rparr>) st = Inl TypeError"
    by (simp add: make_regression_def generate_data_def e)
next
  fix name
  assume "rs_type_of v = Inr name \<and> name \<notin> set accepted_type_names"
  then show e: "create_rs_generator eng v = Inl ValueError"
    by (simp add: create_rs_generator_def accepted_type_names_def)
  show "make_low_rank_matrix eng n_samples n_features effective_rank tail_strength v n_parts
          n_samples_per_part dtype = Inl ValueError"
    by (simp add: make_low_rank_matrix_def e)
  show "make_regression eng (a\<lparr>random_state := v\<rparr>) st = Inl ValueError"
    by (simp add: make_regression_def generate_data_def e)
next
  assume "v = PyNone"
  then show "create_rs_generator eng v = Inr (DaskRandomState PyNone CupyRandomStateClass [])"
    by (simp add: create_rs_generator_def rs_type_of_def dask_random_state_def seed_verdict_def)
next
  fix i
  assume "v = PyInt i \<and> 0 \<le> i \<and> i < 2 ^ 32"
  then show "create_rs_generator eng v = Inr (DaskRandomState (PyInt i) CupyRandomStateClass [])"
    by (simp add: create_rs_generator_def rs_type_of_def dask_random_state_def seed_verdict_def)
next
  fix i
  assume "v = PyInt i \<and> \<not> (0 \<le> i \<and> i < 2 ^ 32)"
  then show "create_rs_generator eng v = Inl ValueError"
    by (auto simp: create_rs_generator_def rs_type_of_def dask_random_state_def seed_verdict_def)
next
  fix s
  assume "v = CupyRandomState s"
  then show "create_rs_generator eng v = Inr (DaskRandomState PyNone (CupyRandomState s) [])"
    by (simp add: create_rs_generator_def rs_type_of_def dask_random_state_def seed_verdict_def)
next
  fix seed backend drawn
  assume "v = DaskRandomState seed backend drawn"
  then show "create_rs_generator eng v = Inr v"
    by (simp add: create_rs_generator_def rs_type_of_def)
qed

theorem create_rs_generator_dispatch_witness:
  "py_module (PyObject NonStringModule ''Thing'') = NonStringModule
   \<and> create_rs_generator sample_engine (PyObject NonStringModule ''Thing'') = Inl TypeError
   \<and> rs_type_of (PyObject NoModule ''str'') = Inr ''str'' \<and> ''str'' \<notin> set accepted_type_names
   \<and> create_rs_generator sample_engine (PyObject NoModule ''str'') = Inl ValueError
   \<and> make_low_rank_matrix sample_engine 100 100 10 0.5 (PyObject NoModule ''str'') 1 None
        ''float32'' = Inl ValueError
   \<and> make_regression sample_engine (default_args\<lparr>random_state := PyObject NoModule ''str''\<rparr>)
        identity_state = Inl ValueError
   \<and> create_rs_generator sample_engine PyNone
        = Inr (DaskRandomState PyNone CupyRandomStateClass [])
   \<and> (0::int) \<le> 7 \<and> (7::int) < 2 ^ 32
   \<and> create_rs_generator sample_engine (PyInt 7)
        = Inr (DaskRandomState (PyInt 7) CupyRandomStateClass [])
   \<and> \<not> ((0::int) \<le> 2 ^ 32 \<and> (2 ^ 32 :: int) < 2 ^ 32)
   \<and> create_rs_generator sample_engine (PyInt (2 ^ 32)) = Inl ValueError
   \<and> create_rs_generator sample_engine (CupyRandomState 0)
        = Inr (DaskRandomState PyNone (CupyRandomState 0) [])
   \<and> create_rs_generator sample_engine (DaskRandomState (PyInt 7) CupyRandomStateClass [])
        = Inr (DaskRandomState (PyInt 7) CupyRandomStateClass [])"
  using create_rs_generator_dispatch[where v = "PyObject NonStringModule ''Thing''"
      and eng = sample_engine]
    create_rs_generator_dispatch[where v = "PyObject NoModule ''str''" and eng = sample_engine
      and n_samples = 100 and n_features = 100 and effective_rank = 10 and tail_strength = "0.5"
      and n_parts = 1 and n_samples_per_part = None and dtype = "''float32''"
      and a = default_args and st = identity_state]
    create_rs_generator_dispatch[where v = PyNone and eng = sample_engine]
    create_rs_generator_dispatch[where v = "PyInt 7" and eng = sample_engine]
    create_rs_generator_dispatch[where v = "PyInt (2 ^ 32)" and eng = sample_engine]
    create_rs_generator_dispatch[where v = "CupyRandomState 0" and eng = sample_engine]
    create_rs_generator_dispatch[where v = "DaskRandomState (PyInt 7) CupyRandomStateClass []"
      and eng = sample_engine]
  by (simp add: rs_type_of_def accepted_type_names_def)

section \<open>Properties of the singular-value profile\<close>

text \<open>
  C8.  With \<open>n = min n_samples n_features\<close>, the singular-value profile has length
  \<open>n\<close>, and for every index \<open>i\<close> below \<open>n\<close> its entry is
  \<open>(1 - tail_strength) * exp (- (i / effective_rank)\<^sup>2)
     + tail_strength * exp (- 0.1 * (i / effective_rank))\<close>;
  the entry is non-negative when \<open>effective_rank > 0\<close> and \<open>tail_strength\<close> lies in
  \<open>[0, 1]\<close>.  (Over the real numbers.)
\<close>

theorem singular_profile_formula:
  fixes n_samples n_features effective_rank :: int and tail_strength :: real
  assumes "int i < min n_samples n_features" and "effective_rank \<noteq> 0"
  shows "\<exists>s. singular_profile (min n_samples n_features) effective_rank tail_strength = Inr s
           \<and> shape s = [nat (min n_samples n_features)]
           \<and> elem s [i] = (1 - tail_strength) * exp (- ((real i / real_of_int effective_rank)\<^sup>2))
                           + tail_strength * exp (- 0.1 * (real i / real_of_int effective_rank))
           \<and> (0 < effective_rank \<and> 0 \<le> tail_strength \<and> tail_strength \<le> 1 \<longrightarrow> 0 \<le> elem s [i])"
  by (simp add: singular_profile_def arange_def map_elems_def add_arrays_def Let_def)

theorem singular_profile_formula_witness:
  "int 1 < min 3 5 \<and> (2::int) \<noteq> 0
   \<and> (\<exists>s. singular_profile (min 3 5) 2 0.5 = Inr s
         \<and> shape s = [nat (min 3 5)]
         \<and> elem s [1] = (1 - 0.5) * exp (- ((real 1 / real_of_int 2)\<^sup>2))
                         + 0.5 * exp (- 0.1 * (real 1 / real_of_int 2))
         \<and> ((0::int) < 2 \<and> (0::real) \<le> 0.5 \<and> (0.5::real) \<le> 1 \<longrightarrow> 0 \<le> elem s [1]))"
  using singular_profile_formula[where i = 1 and n_samples = 3 and n_features = 5
      and effective_rank = 2 and tail_strength = "0.5"] by simp

section \<open>Properties of the regression assembly\<close>

text \<open>
  C10.  The \<open>order\<close> argument of \<open>make_regression\<close> has no effect on what is returned:
  two calls that differ in \<open>order\<close> only (with the same engine and the same state of the
  process-wide generator) return the same \<open>X\<close>, \<open>y\<close> and coefficients.
\<close>

theorem make_regression_ignores_order:
  "make_regression eng (a\<lparr>order := o1\<rparr>) st = make_regression eng (a\<lparr>order := o2\<rparr>) st"
  by (simp add: make_regression_def cong: if_cong)

theorem make_regression_ignores_order_witness:
  "make_regression sample_engine (default_args\<lparr>order := ''C''\<rparr>) identity_state
     = make_regression sample_engine (default_args\<lparr>order := ''F''\<rparr>) identity_state"
  using make_regression_ignores_order[where eng = sample_engine and a = default_args
      and ?o1.0 = "''C''" and st = identity_state and ?o2.0 = "''F''"]
  by simp

section \<open>Shapes and entries of the arrays that the module builds\<close>

lemma then_do_InrE:
  assumes "then_do r f = Inr y"
  obtains x where "r = Inr x" and "f x = Inr y"
  using assms by (cases r) simp_all

lemma standard_normal_Inr:
  assumes "standard_normal eng rs shp chunks dt = Inr (a, rs')"
  shows "shape a = map nat shp" and "\<forall>d \<in> set shp. 0 \<le> d"
    and "elem a = variates eng rs (StandardNormal (map nat shp) chunks dt)"
    and "layout_fits (map nat shp) chunks"
  using assms
  by (auto simp: standard_normal_def serve_def split: if_splits py_value.splits)

lemma normal_Inr:
  assumes "normal eng rs scale shp dt = Inr (a, rs')"
  shows "shape a = shp"
  using assms by (auto simp: normal_def serve_def split: py_value.splits)

lemma qr_q_Inr:
  assumes "qr_q eng a = Inr u"
  obtains m k where "shape a = [m, k]" and "shape u = [m, min m k]"
  using assms by (auto simp: qr_q_def split: list.splits)

lemma rechunk_Inr:
  assumes "rechunk a cs = Inr b"
  shows "b = a" and "list_all2 chunks_fit (shape a) cs"
  using assms by (auto simp: rechunk_def split: if_splits)

lemma singular_profile_shape:
  assumes "singular_profile n er ts = Inr s"
  shows "shape s = [nat n]"
  using assms by (auto simp: singular_profile_def arange_def map_elems_def add_arrays_def Let_def)

lemma scale_columns_Inr:
  assumes "scale_columns u s = Inr w"
  obtains m k n where "shape u = [m, k]" and "shape s = [n]" and "k = n \<or> k = 1 \<or> n = 1"
    and "shape w = [m, max k n]"
  using assms by (auto simp: scale_columns_def split: list.splits if_splits)

lemma dot_Inr:
  assumes "dot a b = Inr c"
  obtains m k n where "shape a = [m, k]" and "shape b = [k, n]" and "shape c = [m, n]"
    and "\<And>i j. elem c [i, j] = (\<Sum>l \<leftarrow> [0..<k]. elem a [i, l] * elem b [l, j])"
  using assms by (auto simp: dot_def split: list.splits if_splits)

lemma make_low_rank_matrix_Inr:
  fixes n_samples n_features effective_rank n_parts :: int
    and tail_strength :: real and n_samples_per_part :: "int option" and random_state :: py_value
  assumes "make_low_rank_matrix eng n_samples n_features effective_rank tail_strength
             random_state n_parts n_samples_per_part dt = Inr (X, rs')"
  shows "shape X = [nat n_samples, nat (min n_samples n_features)]"
    and "0 \<le> n_samples" and "0 \<le> n_features"
proof -
  define n where "n = min n_samples n_features"
  from assms obtain rs c1 m1 rs1 u c2 m2 rs2 v spp u' v' s w where
    m1: "standard_normal eng rs [n_samples, n] (Some [Blocks c1, Whole]) dt = Inr (m1, rs1)"
    and u: "qr_q eng m1 = Inr u"
    and m2: "standard_normal eng rs1 [n, n_features] (Some [Whole, Blocks c2]) dt = Inr (m2, rs2)"
    and v: "qr_q eng m2 = Inr v"
    and u': "rechunk u [Size spp, Whole] = Inr u'"
    and v': "rechunk v [Size spp, Whole] = Inr v'"
    and s: "singular_profile n effective_rank tail_strength = Inr s"
    and w: "scale_columns u' s = Inr w"
    and X: "dot w v' = Inr X"
    unfolding make_low_rank_matrix_def Let_def n_def[symmetric]
    by (auto elim!: then_do_InrE split: prod.splits)
  have nn: "0 \<le> n_samples" "0 \<le> n" "0 \<le> n_features"
    using standard_normal_Inr(2)[OF m1] standard_normal_Inr(2)[OF m2] by simp_all
  have "shape m1 = [nat n_samples, nat n]" using standard_normal_Inr(1)[OF m1] by simp
  then have su: "shape u = [nat n_samples, nat n]"
    using u nn by (auto elim!: qr_q_Inr simp: n_def)
  have "shape m2 = [nat n, nat n_features]" using standard_normal_Inr(1)[OF m2] by simp
  then have sv: "shape v = [nat n, nat n]"
    using v nn by (auto elim!: qr_q_Inr simp: n_def)
  have "u' = u" "v' = v" using rechunk_Inr(1)[OF u'] rechunk_Inr(1)[OF v'] by simp_all
  moreover have "shape s = [nat n]" using s by (rule singular_profile_shape)
  ultimately have "shape w = [nat n_samples, nat n]"
    using w su by (auto elim!: scale_columns_Inr)
  then show "shape X = [nat n_samples, nat (min n_samples n_features)]"
    using X sv \<open>v' = v\<close> by (auto elim!: dot_Inr simp: n_def)
  show "0 \<le> n_samples" "0 \<le> n_features" using nn by simp_all
qed


lemma first_columns_Inr:
  assumes "first_columns a k = Inr b" and "shape a = [m, n]" and "0 \<le> k" and "k \<le> int n"
  shows "shape b = [m, nat k]" and "elem b = elem a"
  using assms by (auto simp: first_columns_def Let_def min_def)

lemma concatenate_Inr:
  assumes "concatenate a b = Inr c"
  obtains m n m' where "shape a = [m, n]" and "shape b = [m', n]" and "shape c = [m + m', n]"
    and "\<And>i j. elem c [i, j] = (if i < m then elem a [i, j] else elem b [i - m, j])"
  using assms by (auto simp: concatenate_def split: list.splits if_splits)

lemma add_arrays_Inr:
  assumes "add_arrays a b = Inr c"
  shows "shape c = shape a"
  using assms by (auto simp: add_arrays_def split: if_splits)

lemma shape_map_elems [simp]: "shape (map_elems f a) = shape a"
  by (simp add: map_elems_def)

lemma elem_map_elems [simp]: "elem (map_elems f a) idx = f (elem a idx)"
  by (simp add: map_elems_def)

lemma generate_data_Inr:
  fixes ns nf ni nt np :: int
  assumes "generate_data eng ns nf ni nt b er ts nz rst np spp dt = Inr (X, y, g)"
  shows "shape X = [nat ns, nat nf]" and "shape y = [nat ns, nat nt]"
    and "shape g = [nat nf, nat nt]"
    and "0 \<le> ns" and "0 \<le> nf" and "0 \<le> nt" and "0 \<le> min nf ni"
    and "\<And>j t. nat (min nf ni) \<le> j \<Longrightarrow> j < nat nf \<Longrightarrow> elem g [j, t] = 0"
proof -
  define k where "k = min nf ni"
  define layout where "layout = [Size 0, Blocks [k, nf - k]]"
  from assms obtain rs p X0 rs0 z0 rs1 Xi pr X1 rs2 y0 where
    X0: "(case er of
            None \<Rightarrow> standard_normal eng rs [ns, nf] (Some [Size p, Blocks [k, nf - k]]) dt
          | Some r \<Rightarrow>
              then_do (make_low_rank_matrix eng ns nf r ts rs np None dt) (\<lambda>(X, rs).
              then_do (rechunk X [Size p, Blocks [k, nf - k]]) (\<lambda>X. Inr (X, rs)))) = Inr (X0, rs0)"
    and z0: "standard_normal eng rs0 [k, nt] (Some [Size p, Whole]) dt = Inr (z0, rs1)"
    and Xi: "first_columns X0 k = Inr Xi"
    and pr: "dot Xi (map_elems (\<lambda>x. 100.0 * x) z0) = Inr pr"
    and X1: "rechunk X0 [Keep, Whole] = Inr X"
    and g: "(if k \<noteq> nf
             then then_do (standard_normal eng rs1 [nf - k, nt] None dt) (\<lambda>(z, rs).
                  then_do (concatenate (map_elems (\<lambda>x. 100.0 * x) z0) (map_elems (\<lambda>x. 0.0 * x) z))
                    (\<lambda>ground_truth.
                  then_do (rechunk ground_truth [Whole, Whole]) (\<lambda>ground_truth.
                  Inr (ground_truth, rs))))
             else Inr (map_elems (\<lambda>x. 100.0 * x) z0, rs1)) = Inr (g, rs2)"
    and y: "(if nz > 0.0
             then then_do (normal eng rs2 nz (shape (map_elems (\<lambda>x. x + b) pr)) dt)
                    (\<lambda>(e, rs). add_arrays (map_elems (\<lambda>x. x + b) pr) e)
             else Inr (map_elems (\<lambda>x. x + b) pr)) = Inr y"
    unfolding generate_data_def Let_def k_def[symmetric]
    by (auto elim!: then_do_InrE split: prod.splits)
  have sz0: "shape z0 = [nat k, nat nt]" and nn1: "0 \<le> k" "0 \<le> nt"
    using standard_normal_Inr(1,2)[OF z0] by simp_all
  have sX0: "shape X0 = [nat ns, nat nf] \<and> 0 \<le> ns \<and> 0 \<le> nf"
  proof (cases er)
    case None
    then show ?thesis using X0 standard_normal_Inr(1,2)[of eng rs "[ns, nf]" _ dt X0 rs0] by simp
  next
    case (Some r)
    with X0 obtain Xl where
      l: "make_low_rank_matrix eng ns nf r ts rs np None dt = Inr (Xl, rs0)"
      and r: "rechunk Xl [Size p, Blocks [k, nf - k]] = Inr X0"
      by (auto elim!: then_do_InrE split: prod.splits)
    have "shape Xl = [nat ns, nat (min ns nf)]" "0 \<le> ns" "0 \<le> nf"
      using make_low_rank_matrix_Inr[OF l] by simp_all
    moreover have "X0 = Xl" "list_all2 chunks_fit (shape Xl) [Size p, Blocks [k, nf - k]]"
      using rechunk_Inr[OF r] by simp_all
    ultimately show ?thesis by auto
  qed
  then have sX: "shape X = [nat ns, nat nf]" using rechunk_Inr(1)[OF X1] by simp
  have kle: "k \<le> int (nat nf)" using sX0 by (simp add: k_def)
  have sXi: "shape Xi = [nat ns, nat k]"
    using first_columns_Inr(1)[OF Xi _ nn1(1) kle] sX0 by simp
  have spr: "shape pr = [nat ns, nat nt]"
    using pr sXi sz0 by (auto elim!: dot_Inr)
  have sy: "shape y = [nat ns, nat nt]"
    using y spr by (auto elim!: then_do_InrE split: if_splits prod.splits dest: add_arrays_Inr)
  have sg: "shape g = [nat nf, nat nt] \<and> (\<forall>j t. nat k \<le> j \<longrightarrow> j < nat nf \<longrightarrow> elem g [j, t] = 0)"
  proof (cases "k = nf")
    case True
    then show ?thesis using g sz0 by auto
  next
    case False
    with g obtain z rs' c where
      z: "standard_normal eng rs1 [nf - k, nt] None dt = Inr (z, rs')"
      and c: "concatenate (map_elems ((*) 100) z0) (map_elems ((*) 0) z) = Inr c"
      and r: "rechunk c [Whole, Whole] = Inr g"
      by (auto elim!: then_do_InrE split: prod.splits)
    have "shape z = [nat (nf - k), nat nt]" "0 \<le> nf - k"
      using standard_normal_Inr(1,2)[OF z] by simp_all
    moreover have "g = c" using rechunk_Inr(1)[OF r] by simp
    ultimately show ?thesis
      using c sz0 nn1 by (auto elim!: concatenate_Inr)
  qed
  show "shape X = [nat ns, nat nf]" by (rule sX)
  show "shape y = [nat ns, nat nt]" by (rule sy)
  show "shape g = [nat nf, nat nt]" using sg by simp
  show "0 \<le> ns" "0 \<le> nf" "0 \<le> nt" "0 \<le> min nf ni" using sX0 nn1 by (simp_all add: k_def)
  show "\<And>j t. nat (min nf ni) \<le> j \<Longrightarrow> j < nat nf \<Longrightarrow> elem g [j, t] = 0"
    using sg by (simp add: k_def)
qed


lemma valid_numpy_stateD:
  assumes "valid_numpy_state st"
  shows "mset (st k n) = mset [0..<n]" and "set (st k n) = {0..<n}" and "length (st k n) = n"
proof -
  show m: "mset (st k n) = mset [0..<n]" using assms by (simp add: valid_numpy_state_def)
  show "set (st k n) = {0..<n}" using mset_eq_setD[OF m] by simp
  show "length (st k n) = n" using mset_eq_length[OF m] by simp
qed

lemma take_rows_valid:
  assumes "shape a = [m, n]" and "set ixs \<subseteq> {0..<m}"
  obtains b where "take_rows a ixs = Inr b" and "shape b = [length ixs, n]"
    and "\<And>i j. i < length ixs \<Longrightarrow> elem b [i, j] = elem a [ixs ! i, j]"
proof -
  define b where "b = \<lparr>shape = [length ixs, n],
      elem = (\<lambda>idx. case idx of [i, j] \<Rightarrow> if i < length ixs then elem a [ixs ! i, j] else 0
                                | _ \<Rightarrow> 0)\<rparr>"
  have "\<forall>i \<in> set ixs. i < m" using assms(2) by auto
  then have "take_rows a ixs = Inr b" by (simp add: take_rows_def assms(1) b_def)
  then show thesis by (rule that) (simp_all add: b_def)
qed

lemma take_columns_valid:
  assumes "shape a = [m, n]" and "set ixs \<subseteq> {0..<n}"
  obtains b where "take_columns a ixs = Inr b" and "shape b = [m, length ixs]"
    and "\<And>i j. j < length ixs \<Longrightarrow> elem b [i, j] = elem a [i, ixs ! j]"
proof -
  define b where "b = \<lparr>shape = [m, length ixs],
      elem = (\<lambda>idx. case idx of [i, j] \<Rightarrow> if j < length ixs then elem a [i, ixs ! j] else 0
                                | _ \<Rightarrow> 0)\<rparr>"
  have "\<forall>j \<in> set ixs. j < n" using assms(2) by auto
  then have "take_columns a ixs = Inr b" by (simp add: take_columns_def assms(1) b_def)
  then show thesis by (rule that) (simp_all add: b_def)
qed

lemma permute_data_valid:
  fixes ns nf :: int
  assumes st: "valid_numpy_state st"
    and X: "shape X = [nat ns, nat nf]" and y: "shape y = [nat ns, nt]"
    and g: "shape g = [nat nf, nt]" and nn: "0 \<le> ns" "0 \<le> nf"
  obtains X' y' g' where "permute_data st ns nf (X, y, g) = Inr (X', y', g')"
    and "shape X' = [nat ns, nat nf]" and "shape y' = [nat ns, nt]" and "shape g' = [nat nf, nt]"
    and "\<And>i j. i < nat ns \<Longrightarrow> j < nat nf \<Longrightarrow>
           elem X' [i, j] = elem X [st 0 (nat ns) ! i, st (Suc 0) (nat nf) ! j]"
    and "\<And>i t. i < nat ns \<Longrightarrow> elem y' [i, t] = elem y [st 0 (nat ns) ! i, t]"
    and "\<And>j t. j < nat nf \<Longrightarrow> elem g' [j, t] = elem g [st (Suc 0) (nat nf) ! j, t]"
proof -
  have v0: "set (st 0 (nat ns)) \<subseteq> {0..<nat ns}" "length (st 0 (nat ns)) = nat ns"
    using valid_numpy_stateD(2,3)[OF st, of 0 "nat ns"] by simp_all
  have v1: "set (st (Suc 0) (nat nf)) \<subseteq> {0..<nat nf}" "length (st (Suc 0) (nat nf)) = nat nf"
    using valid_numpy_stateD(2,3)[OF st, of "Suc 0" "nat nf"] by simp_all
  obtain X1 where 1: "take_rows X (st 0 (nat ns)) = Inr X1" and sX1: "shape X1 = [nat ns, nat nf]"
    and eX1: "\<And>i j. i < nat ns \<Longrightarrow> elem X1 [i, j] = elem X [st 0 (nat ns) ! i, j]"
    using take_rows_valid[OF X v0(1)] v0(2) by metis
  obtain y' where 2: "take_rows y (st 0 (nat ns)) = Inr y'" and sy: "shape y' = [nat ns, nt]"
    and ey: "\<And>i t. i < nat ns \<Longrightarrow> elem y' [i, t] = elem y [st 0 (nat ns) ! i, t]"
    using take_rows_valid[OF y v0(1)] v0(2) by metis
  obtain X' where 3: "take_columns X1 (st (Suc 0) (nat nf)) = Inr X'"
    and sX: "shape X' = [nat ns, nat nf]"
    and eX': "\<And>i j. j < nat nf \<Longrightarrow> elem X' [i, j] = elem X1 [i, st (Suc 0) (nat nf) ! j]"
    using take_columns_valid[OF sX1 v1(1)] v1(2) by metis
  obtain g' where 4: "take_rows g (st (Suc 0) (nat nf)) = Inr g'" and sg: "shape g' = [nat nf, nt]"
    and eg: "\<And>j t. j < nat nf \<Longrightarrow> elem g' [j, t] = elem g [st (Suc 0) (nat nf) ! j, t]"
    using take_rows_valid[OF g v1(1)] v1(2) by metis
  have eX: "\<And>i j. i < nat ns \<Longrightarrow> j < nat nf \<Longrightarrow>
           elem X' [i, j] = elem X [st 0 (nat ns) ! i, st (Suc 0) (nat nf) ! j]"
    by (simp add: eX' eX1)
  have "permute_data st ns nf (X, y, g) = Inr (X', y', g')"
    using nn by (simp add: permute_data_def permutation_def 1 2 3 4)
  then show thesis using sX sy sg eX ey eg by (rule that)
qed

lemma expand_squeeze_index:
  assumes "j < m" and "t < n"
  shows "expand_index [m, n] (squeeze_index [m, n] [j, t]) = [j, t]"
  using assms by auto

lemma make_regression_Inr:
  assumes "make_regression eng a st = Inr r"
  obtains X y g X' y' g' where
    "generate_data eng (n_samples a) (n_features a) (n_informative a) (n_targets a)
        (bias a) (effective_rank a) (tail_strength a) (noise a) (random_state a)
        (n_parts a) (n_samples_per_part a) (dtype a) = Inr (X, y, g)"
    and "(if shuffle a then permute_data st (n_samples a) (n_features a) (X, y, g)
          else Inr (X, y, g)) = Inr (X', y', g')"
    and "result_X r = X'" and "result_y r = squeeze y'"
    and "result_coef r = (if coef a then Some (squeeze g') else None)"
  using assms unfolding make_regression_def Let_def
  by (auto elim!: then_do_InrE split: prod.splits if_splits)

text \<open>Permuted sums and permuted rows.\<close>

lemma sum_list_map_mset_cong:
  fixes f :: "'a \<Rightarrow> real"
  assumes "mset xs = mset ys"
  shows "sum_list (map f xs) = sum_list (map f ys)"
proof -
  have "sum_list (map f xs) = sum_mset (image_mset f (mset xs))"
    by (metis mset_map sum_mset_sum_list)
  also have "\<dots> = sum_mset (image_mset f (mset ys))" using assms by simp
  also have "\<dots> = sum_list (map f ys)" by (metis mset_map sum_mset_sum_list)
  finally show ?thesis .
qed

lemma map_nth_indices: "map f xs = map (\<lambda>j. f (xs ! j)) [0..<length xs]"
proof -
  have "map f xs = map f (map ((!) xs) [0..<length xs])" by (simp only: map_nth)
  then show ?thesis by (simp only: map_map comp_def)
qed

lemma mset_permuted_rows:
  assumes X: "shape X = [m, n]" and X': "shape X' = [m, n]"
    and si: "mset si = mset [0..<m]" and fi: "mset fi = mset [0..<n]"
    and e: "\<And>i j. i < m \<Longrightarrow> j < n \<Longrightarrow> elem X' [i, j] = elem X [si ! i, fi ! j]"
  shows "mset (matrix_rows X') = image_mset (\<lambda>row. map ((!) row) fi) (mset (matrix_rows X))"
proof -
  define row where "row = (\<lambda>i. map (\<lambda>j. elem X [i, j]) [0..<n])"
  have lsi: "length si = m" and lfi: "length fi = n"
    using mset_eq_length[OF si] mset_eq_length[OF fi] by simp_all
  have ssi: "set si = {0..<m}" and sfi: "set fi = {0..<n}"
    using mset_eq_setD[OF si] mset_eq_setD[OF fi] by simp_all
  have r: "matrix_rows X = map row [0..<m]" by (simp add: matrix_rows_def X row_def)
  have "matrix_rows X' = map (\<lambda>i. map (\<lambda>j. elem X' [i, j]) [0..<n]) [0..<m]"
    by (simp add: matrix_rows_def X')
  also have "\<dots> = map (\<lambda>i. map ((!) (row (si ! i))) fi) [0..<m]"
  proof (rule map_cong[OF refl])
    fix i assume "i \<in> set [0..<m]"
    then have i: "i < m" by simp
    have "map ((!) (row (si ! i))) fi = map (\<lambda>j. row (si ! i) ! (fi ! j)) [0..<n]"
      using map_nth_indices[of "(!) (row (si ! i))" fi] by (simp add: lfi)
    also have "\<dots> = map (\<lambda>j. elem X [si ! i, fi ! j]) [0..<n]"
    proof (rule map_cong[OF refl])
      fix j assume "j \<in> set [0..<n]"
      then have "fi ! j < n" using sfi lfi by (metis atLeastLessThan_iff nth_mem set_upt)
      then show "row (si ! i) ! (fi ! j) = elem X [si ! i, fi ! j]" by (simp add: row_def)
    qed
    also have "\<dots> = map (\<lambda>j. elem X' [i, j]) [0..<n]"
      using e[OF i] by simp
    finally show "map (\<lambda>j. elem X' [i, j]) [0..<n] = map ((!) (row (si ! i))) fi" by simp
  qed
  also have "\<dots> = map ((\<lambda>r. map ((!) r) fi) \<circ> row) si"
    using map_nth_indices[of "(\<lambda>r. map ((!) r) fi) \<circ> row" si] by (simp add: lsi)
  finally have "mset (matrix_rows X') = image_mset ((\<lambda>r. map ((!) r) fi) \<circ> row) (mset si)"
    by simp
  also have "\<dots> = image_mset (\<lambda>r. map ((!) r) fi) (mset (map row [0..<m]))"
    unfolding si by (simp add: multiset.map_comp)
  finally show ?thesis by (simp add: r)
qed

text \<open>
  Evaluation of the model on concrete arguments unfolds these definitions and uses the
  equations of the partition sizing and of the default block length below \<open>2 ^ 53\<close>.
\<close>

lemmas model_defs =
  make_regression_def generate_data_def permute_data_def make_low_rank_matrix_def
  create_rs_generator_def rs_type_of_def dask_random_state_def seed_verdict_def
  generate_chunks_for_qr_eq effective_min_def samples_per_part_default singular_profile_def
  standard_normal_def normal_def serve_def layout_fits_def
  qr_q_def rechunk_def map_elems_def add_arrays_def arange_def scale_columns_def dot_def
  first_columns_def take_rows_def take_columns_def concatenate_def squeeze_def permutation_def
  default_args_def sample_engine_def identity_state_def reversing_state_def Let_def

lemma valid_identity_state: "valid_numpy_state identity_state"
  by (simp add: valid_numpy_state_def identity_state_def)

lemma valid_reversing_state: "valid_numpy_state reversing_state"
  by (simp add: valid_numpy_state_def reversing_state_def)

section \<open>The shape of the low-rank matrix\<close>

text \<open>
  C2.  Whenever \<open>make_low_rank_matrix\<close> returns, the matrix has \<open>n_samples\<close> rows and
  \<open>min n_samples n_features\<close> columns: the second factor is the orthonormal factor of an
  \<open>n \<times> n_features\<close> draw and has \<open>n\<close> columns, not \<open>n_features\<close>.  For 2 samples and
  3 features the function returns a \<open>2 \<times> 2\<close> matrix.
\<close>

theorem make_low_rank_matrix_shape:
  fixes n_samples n_features effective_rank n_parts :: int
    and tail_strength :: real and n_samples_per_part :: "int option"
    and random_state :: py_value and dtype :: string
  shows "(make_low_rank_matrix eng n_samples n_features effective_rank tail_strength
            random_state n_parts n_samples_per_part dtype = Inr (X, rs)
          \<longrightarrow> shape X = [nat n_samples, nat (min n_samples n_features)])
       \<and> (\<exists>X' rs'. make_low_rank_matrix eng 2 3 1 0.5 (PyInt 0) 1 None ''float32'' = Inr (X', rs')
             \<and> shape X' = [2, 2])"
proof (intro conjI impI)
  assume "make_low_rank_matrix eng n_samples n_features effective_rank tail_strength
            random_state n_parts n_samples_per_part dtype = Inr (X, rs)"
  then show "shape X = [nat n_samples, nat (min n_samples n_features)]"
    by (rule make_low_rank_matrix_Inr(1))
next
  show "\<exists>X' rs'. make_low_rank_matrix eng 2 3 1 0.5 (PyInt 0) 1 None ''float32'' = Inr (X', rs')
          \<and> shape X' = [2, 2]"
    by (simp add: model_defs)
qed

theorem make_low_rank_matrix_shape_witness:
  "\<exists>X rs. make_low_rank_matrix sample_engine 2 3 1 0.5 (PyInt 0) 1 None ''float32'' = Inr (X, rs)
     \<and> shape X = [nat 2, nat (min 2 3)] \<and> shape X \<noteq> [2, 3]"
proof -
  obtain X rs where
    r: "make_low_rank_matrix sample_engine 2 3 1 0.5 (PyInt 0) 1 None ''float32'' = Inr (X, rs)"
    using make_low_rank_matrix_shape[where eng = sample_engine] by blast
  have "shape X = [nat 2, nat (min 2 3)]"
    using make_low_rank_matrix_shape[where eng = sample_engine and X = X and rs = rs
        and n_samples = 2 and n_features = 3 and effective_rank = 1 and tail_strength = "0.5"
        and random_state = "PyInt 0" and n_parts = 1 and n_samples_per_part = None
        and dtype = "''float32''"] r
    by blast
  then show ?thesis using r by auto
qed

section \<open>The shape of the targets\<close>

lemma y_shape_of_make_regression:
  assumes st: "valid_numpy_state st" and r: "make_regression eng a st = Inr r"
  shows "shape (result_y r) = filter (\<lambda>d. d \<noteq> 1) [nat (n_samples a), nat (n_targets a)]"
proof -
  from r obtain X y g X' y' g' where
    gen: "generate_data eng (n_samples a) (n_features a) (n_informative a) (n_targets a)
        (bias a) (effective_rank a) (tail_strength a) (noise a) (random_state a)
        (n_parts a) (n_samples_per_part a) (dtype a) = Inr (X, y, g)"
    and sh: "(if shuffle a then permute_data st (n_samples a) (n_features a) (X, y, g)
          else Inr (X, y, g)) = Inr (X', y', g')"
    and y: "result_y r = squeeze y'"
    by (rule make_regression_Inr)
  note s = generate_data_Inr[OF gen]
  have "shape y' = [nat (n_samples a), nat (n_targets a)]"
  proof (cases "shuffle a")
    case True
    obtain X1 y1 g1 where
      "permute_data st (n_samples a) (n_features a) (X, y, g) = Inr (X1, y1, g1)"
      and "shape y1 = [nat (n_samples a), nat (n_targets a)]"
      using permute_data_valid[OF st s(1) s(2) s(3) s(4) s(5)] by metis
    then show ?thesis using sh True by simp
  next
    case False
    then show ?thesis using sh s(2) by simp
  qed
  then show ?thesis by (simp add: y squeeze_def)
qed

text \<open>
  C3.  \<open>da.squeeze\<close> removes every axis of length 1 from \<open>y\<close>, not the axis of the
  targets only: the returned \<open>y\<close> has the shape \<open>(n_samples, n_targets)\<close> without its
  entries equal to 1.  For one sample and two targets \<open>y\<close> has shape \<open>(2,)\<close>, not
  \<open>(1, 2)\<close>; for one sample and one target it has shape \<open>()\<close>, not \<open>(1,)\<close>.
\<close>

theorem make_regression_y_shape:
  "(valid_numpy_state st \<and> make_regression eng a st = Inr r
      \<longrightarrow> shape (result_y r) = filter (\<lambda>d. d \<noteq> 1) [nat (n_samples a), nat (n_targets a)])
   \<and> (\<exists>r'. make_regression eng (default_args\<lparr>n_samples := 1, n_targets := 2\<rparr>) st = Inr r'
         \<and> shape (result_y r') = [2])
   \<and> (\<exists>r'. make_regression eng (default_args\<lparr>n_samples := 1\<rparr>) st = Inr r'
         \<and> shape (result_y r') = [])"
proof (intro conjI impI)
  assume "valid_numpy_state st \<and> make_regression eng a st = Inr r"
  then show "shape (result_y r) = filter (\<lambda>d. d \<noteq> 1) [nat (n_samples a), nat (n_targets a)]"
    using y_shape_of_make_regression by blast
next
  show "\<exists>r'. make_regression eng (default_args\<lparr>n_samples := 1, n_targets := 2\<rparr>) st = Inr r'
          \<and> shape (result_y r') = [2]"
    by (simp add: model_defs)
next
  show "\<exists>r'. make_regression eng (default_args\<lparr>n_samples := 1\<rparr>) st = Inr r'
          \<and> shape (result_y r') = []"
    by (simp add: model_defs)
qed

theorem make_regression_y_shape_witness:
  "valid_numpy_state identity_state
   \<and> (\<exists>r. make_regression sample_engine (default_args\<lparr>n_samples := 1, n_targets := 2\<rparr>)
              identity_state = Inr r
         \<and> shape (result_y r) = filter (\<lambda>d. d \<noteq> 1) [nat 1, nat 2]
         \<and> shape (result_y r) \<noteq> [1, 2])"
proof -
  obtain r where
    r: "make_regression sample_engine (default_args\<lparr>n_samples := 1, n_targets := 2\<rparr>)
          identity_state = Inr r"
    using make_regression_y_shape[where eng = sample_engine and st = identity_state] by blast
  have "shape (result_y r) = filter (\<lambda>d. d \<noteq> 1)
          [nat (n_samples (default_args\<lparr>n_samples := 1, n_targets := 2\<rparr>)),
           nat (n_targets (default_args\<lparr>n_samples := 1, n_targets := 2\<rparr>))]"
    using make_regression_y_shape[where eng = sample_engine and st = identity_state and r = r
        and a = "default_args\<lparr>n_samples := 1, n_targets := 2\<rparr>"] r valid_identity_state
    by blast
  then show ?thesis using r valid_identity_state by auto
qed

section \<open>Shuffling and the seed\<close>

text \<open>
  C4.  The two permutations of the shuffle come from the process-wide NumPy generator,
  which \<open>random_state\<close> does not seed.  Two calls with the same integer seed, the same
  other arguments and the same engine, one made when that generator is about to return
  the identity and one when it is about to return the reversal, return different \<open>X\<close>
  as soon as the first and the last entry of the unshuffled \<open>X\<close> differ.
\<close>

theorem shuffle_not_reproducible:
  assumes gen: "generate_data eng (n_samples a) (n_features a) (n_informative a) (n_targets a)
        (bias a) (effective_rank a) (tail_strength a) (noise a) (random_state a)
        (n_parts a) (n_samples_per_part a) (dtype a) = Inr (X0, y0, g0)"
    and sh: "shuffle a" and seed: "random_state a = PyInt seed"
    and pos: "0 < n_samples a" "0 < n_features a"
    and ne: "elem X0 [0, 0] \<noteq> elem X0 [nat (n_samples a) - 1, nat (n_features a) - 1]"
  shows "\<exists>r1 r2. make_regression eng a identity_state = Inr r1
           \<and> make_regression eng a reversing_state = Inr r2
           \<and> elem (result_X r1) [0, 0] \<noteq> elem (result_X r2) [0, 0]"
proof -
  note s = generate_data_Inr[OF gen]
  have p: "0 < nat (n_samples a)" "0 < nat (n_features a)" using pos by simp_all
  obtain X1 y1 g1 where
    p1: "permute_data identity_state (n_samples a) (n_features a) (X0, y0, g0) = Inr (X1, y1, g1)"
    and e1: "elem X1 [0, 0] = elem X0 [identity_state 0 (nat (n_samples a)) ! 0,
                                      identity_state (Suc 0) (nat (n_features a)) ! 0]"
    using permute_data_valid[OF valid_identity_state s(1) s(2) s(3) s(4) s(5)] p by metis
  obtain X2 y2 g2 where
    p2: "permute_data reversing_state (n_samples a) (n_features a) (X0, y0, g0) = Inr (X2, y2, g2)"
    and e2: "elem X2 [0, 0] = elem X0 [reversing_state 0 (nat (n_samples a)) ! 0,
                                      reversing_state (Suc 0) (nat (n_features a)) ! 0]"
    using permute_data_valid[OF valid_reversing_state s(1) s(2) s(3) s(4) s(5)] p by metis
  have i: "elem X1 [0, 0] = elem X0 [0, 0]"
    using p by (simp add: e1 identity_state_def)
  have r: "elem X2 [0, 0] = elem X0 [nat (n_samples a) - 1, nat (n_features a) - 1]"
    using p by (simp add: e2 reversing_state_def rev_nth)
  have "make_regression eng a identity_state
          = Inr \<lparr>result_X = X1, result_y = squeeze y1,
                 result_coef = (if coef a then Some (squeeze g1) else None)\<rparr>"
    by (simp add: make_regression_def gen sh p1)
  moreover have "make_regression eng a reversing_state
          = Inr \<lparr>result_X = X2, result_y = squeeze y2,
                 result_coef = (if coef a then Some (squeeze g2) else None)\<rparr>"
    by (simp add: make_regression_def gen sh p2)
  ultimately show ?thesis using i r ne by simp
qed

theorem shuffle_not_reproducible_witness:
  "\<exists>r1 r2.
     make_regression sample_engine
       (default_args\<lparr>n_samples := 2, n_features := 1, n_informative := 1, shuffle := True,
                      random_state := PyInt 0\<rparr>) identity_state = Inr r1
   \<and> make_regression sample_engine
       (default_args\<lparr>n_samples := 2, n_features := 1, n_informative := 1, shuffle := True,
                      random_state := PyInt 0\<rparr>) reversing_state = Inr r2
   \<and> elem (result_X r1) [0, 0] \<noteq> elem (result_X r2) [0, 0]"
proof -
  define a where "a = default_args\<lparr>n_samples := 2, n_features := 1, n_informative := 1,
     shuffle := True, random_state := PyInt 0\<rparr>"
  obtain X0 y0 g0 where
    gen: "generate_data sample_engine (n_samples a) (n_features a) (n_informative a) (n_targets a)
        (bias a) (effective_rank a) (tail_strength a) (noise a) (random_state a)
        (n_parts a) (n_samples_per_part a) (dtype a) = Inr (X0, y0, g0)"
    and e: "elem X0 [0, 0] = 1" "elem X0 [1, 0] = 2"
    by (simp add: a_def model_defs)
  have "elem X0 [0, 0] \<noteq> elem X0 [nat (n_samples a) - 1, nat (n_features a) - 1]"
    using e by (simp add: a_def default_args_def)
  then show ?thesis
    using shuffle_not_reproducible[OF gen, of 0]
    by (simp add: a_def default_args_def)
qed

section \<open>The zero rows of the coefficients\<close>

text \<open>
  C6 fails when shuffle is requested: with 2 features, 1 of them informative, and the
  feature permutation \<open>[1, 0]\<close>, the returned coefficients are \<open>[0, 100]\<close>: the zero is
  in row 0 and row 1 is not zero.
\<close>

theorem coefficients_zero_rows_counterexample:
  "map_sum id (map_option entries \<circ> result_coef)
     (make_regression sample_engine
        (default_args\<lparr>n_samples := 2, n_features := 2, n_informative := 1, coef := True,
                       shuffle := True\<rparr>)
        reversing_state) = Inr (Some [0, 100])"
  by (simp add: model_defs entries_def upt_rec)

text \<open>
  C6, amended.  Whenever coefficients are requested, shuffle is not requested and
  \<open>n_informative < n_features\<close>, rows \<open>n_informative\<close> to \<open>n_features - 1\<close> of the
  returned coefficients are zero (the coefficients have the shape
  \<open>(n_features, n_targets)\<close> without its entries equal to 1); for 8 features, 3 of them
  informative, and one target the last 5 entries of the coefficient vector are zero.
\<close>

theorem coefficients_zero_rows:
  assumes "make_regression eng a st = Inr r" and "coef a" and "\<not> shuffle a"
    and "n_informative a < n_features a"
  shows "\<exists>c. result_coef r = Some c
           \<and> shape c = filter (\<lambda>d. d \<noteq> 1) [nat (n_features a), nat (n_targets a)]
           \<and> (\<forall>j t. nat (n_informative a) \<le> j \<and> j < nat (n_features a) \<and> t < nat (n_targets a)
                 \<longrightarrow> elem c (squeeze_index [nat (n_features a), nat (n_targets a)] [j, t]) = 0)"
proof -
  from assms(1) obtain X y g X' y' g' where
    gen: "generate_data eng (n_samples a) (n_features a) (n_informative a) (n_targets a)
        (bias a) (effective_rank a) (tail_strength a) (noise a) (random_state a)
        (n_parts a) (n_samples_per_part a) (dtype a) = Inr (X, y, g)"
    and sh: "(if shuffle a then permute_data st (n_samples a) (n_features a) (X, y, g)
          else Inr (X, y, g)) = Inr (X', y', g')"
    and c: "result_coef r = (if coef a then Some (squeeze g') else None)"
    by (rule make_regression_Inr)
  have g': "g' = g" using sh assms(3) by simp
  have sg: "shape g = [nat (n_features a), nat (n_targets a)]"
    using generate_data_Inr(3)[OF gen] .
  have k: "min (n_features a) (n_informative a) = n_informative a" using assms(4) by simp
  have z: "\<And>j t. nat (n_informative a) \<le> j \<Longrightarrow> j < nat (n_features a) \<Longrightarrow> elem g [j, t] = 0"
    using generate_data_Inr(8)[OF gen] by (simp add: k)
  have "result_coef r = Some (squeeze g)" using c assms(2) g' by simp
  moreover have "shape (squeeze g) = filter (\<lambda>d. d \<noteq> 1) [nat (n_features a), nat (n_targets a)]"
    by (simp add: squeeze_def sg)
  moreover have "elem (squeeze g) (squeeze_index [nat (n_features a), nat (n_targets a)] [j, t]) = 0"
    if "nat (n_informative a) \<le> j" "j < nat (n_features a)" "t < nat (n_targets a)" for j t
  proof -
    have "elem (squeeze g) (squeeze_index [nat (n_features a), nat (n_targets a)] [j, t])
            = elem g [j, t]"
      unfolding squeeze_def sg using expand_squeeze_index[OF that(2,3)] by simp
    then show ?thesis using z[OF that(1,2)] by simp
  qed
  ultimately show ?thesis by blast
qed

theorem coefficients_zero_rows_witness:
  "\<exists>r c. make_regression sample_engine
            (default_args\<lparr>n_features := 8, n_informative := 3, coef := True\<rparr>) identity_state = Inr r
     \<and> result_coef r = Some c \<and> shape c = [8]
     \<and> (\<forall>j. 3 \<le> j \<and> j < 8 \<longrightarrow> elem c [j] = 0)"
proof -
  define a where "a = default_args\<lparr>n_features := 8, n_informative := 3, coef := True\<rparr>"
  obtain r where r: "make_regression sample_engine a identity_state = Inr r"
    by (simp add: a_def model_defs)
  have h: "coef a" "\<not> shuffle a" "n_informative a < n_features a"
    by (simp_all add: a_def default_args_def)
  obtain c where c: "result_coef r = Some c"
    and s: "shape c = filter (\<lambda>d. d \<noteq> 1) [nat (n_features a), nat (n_targets a)]"
    and z: "\<forall>j t. nat (n_informative a) \<le> j \<and> j < nat (n_features a) \<and> t < nat (n_targets a)
                 \<longrightarrow> elem c (squeeze_index [nat (n_features a), nat (n_targets a)] [j, t]) = 0"
    using coefficients_zero_rows[OF r h] by blast
  have "shape c = [8]" using s by (simp add: a_def default_args_def)
  moreover have "elem c [j] = 0" if "3 \<le> j \<and> j < 8" for j
    using z[rule_format, of j 0] that by (simp add: a_def default_args_def)
  ultimately show ?thesis using r c unfolding a_def by blast
qed

section \<open>What shuffling preserves\<close>

text \<open>
  C7 fails for the multiset of rows: with one sample, two features and the feature
  permutation \<open>[1, 0]\<close>, the only row of \<open>X\<close> is \<open>[1, 2]\<close> without shuffle and
  \<open>[2, 1]\<close> with it.
\<close>

theorem shuffle_rows_counterexample:
  "map_sum id (matrix_rows \<circ> result_X)
     (make_regression sample_engine
        (default_args\<lparr>n_samples := 1, n_features := 2, n_informative := 2, shuffle := False\<rparr>)
        reversing_state) = Inr [[1, 2]]
   \<and> map_sum id (matrix_rows \<circ> result_X)
       (make_regression sample_engine
          (default_args\<lparr>n_samples := 1, n_features := 2, n_informative := 2, shuffle := True\<rparr>)
          reversing_state) = Inr [[2, 1]]
   \<and> mset (matrix_rows (result_X (projr (make_regression sample_engine
          (default_args\<lparr>n_samples := 1, n_features := 2, n_informative := 2, shuffle := True\<rparr>)
          reversing_state))))
     \<noteq> mset (matrix_rows (result_X (projr (make_regression sample_engine
          (default_args\<lparr>n_samples := 1, n_features := 2, n_informative := 2, shuffle := False\<rparr>)
          reversing_state))))"
  by (simp add: model_defs matrix_rows_def upt_rec)

text \<open>
  C7, amended.  When shuffle is requested (and NumPy returns permutations, and the
  statements before the shuffle succeed with \<open>X0\<close>, \<open>y0\<close>, \<open>g0\<close>),
  \<open>make_regression\<close> returns; one permutation of \<open>[0, n_samples)\<close> is applied to
  the rows of \<open>X\<close> and to the rows of \<open>y\<close>, and a second one, of \<open>[0, n_features)\<close>,
  to the columns of \<open>X\<close> and to the rows of the coefficient matrix (\<open>y1\<close> and \<open>g1\<close> are
  \<open>y\<close> and the coefficients before \<open>squeeze\<close>).  The multiset of rows of \<open>X\<close> is
  the one before shuffling with every row re-ordered by the feature permutation: the
  rows are permuted, not resampled, but they are not unchanged.  The correspondence of
  coefficients and features is preserved: the products of the rows of \<open>X\<close> with the
  coefficients are those before shuffling, in the order of the row permutation.
\<close>

theorem shuffle_permutes_consistently:
  assumes gen: "generate_data eng (n_samples a) (n_features a) (n_informative a) (n_targets a)
        (bias a) (effective_rank a) (tail_strength a) (noise a) (random_state a)
        (n_parts a) (n_samples_per_part a) (dtype a) = Inr (X0, y0, g0)"
    and sh: "shuffle a" and st: "valid_numpy_state st"
  shows "\<exists>r y1 g1.
           make_regression eng a st = Inr r
         \<and> mset (st 0 (nat (n_samples a))) = mset [0..<nat (n_samples a)]
         \<and> mset (st (Suc 0) (nat (n_features a))) = mset [0..<nat (n_features a)]
         \<and> shape (result_X r) = shape X0
         \<and> (\<forall>i j. i < nat (n_samples a) \<and> j < nat (n_features a) \<longrightarrow>
               elem (result_X r) [i, j]
                 = elem X0 [st 0 (nat (n_samples a)) ! i, st (Suc 0) (nat (n_features a)) ! j])
         \<and> result_y r = squeeze y1 \<and> shape y1 = shape y0
         \<and> (\<forall>i t. i < nat (n_samples a) \<longrightarrow>
               elem y1 [i, t] = elem y0 [st 0 (nat (n_samples a)) ! i, t])
         \<and> (coef a \<longrightarrow> result_coef r = Some (squeeze g1)) \<and> shape g1 = shape g0
         \<and> (\<forall>j t. j < nat (n_features a) \<longrightarrow>
               elem g1 [j, t] = elem g0 [st (Suc 0) (nat (n_features a)) ! j, t])
         \<and> mset (matrix_rows (result_X r))
             = image_mset (\<lambda>row. map ((!) row) (st (Suc 0) (nat (n_features a))))
                 (mset (matrix_rows X0))
         \<and> (\<forall>i t. i < nat (n_samples a) \<longrightarrow>
               (\<Sum>j \<leftarrow> [0..<nat (n_features a)]. elem (result_X r) [i, j] * elem g1 [j, t])
                 = (\<Sum>j \<leftarrow> [0..<nat (n_features a)].
                      elem X0 [st 0 (nat (n_samples a)) ! i, j] * elem g0 [j, t]))"
proof -
  define si where "si = st 0 (nat (n_samples a))"
  define fi where "fi = st (Suc 0) (nat (n_features a))"
  note s = generate_data_Inr[OF gen]
  have msi: "mset si = mset [0..<nat (n_samples a)]"
    and mfi: "mset fi = mset [0..<nat (n_features a)]"
    using valid_numpy_stateD(1)[OF st] by (simp_all add: si_def fi_def)
  have lfi: "length fi = nat (n_features a)" using mset_eq_length[OF mfi] by simp
  obtain X1 y1 g1 where
    p: "permute_data st (n_samples a) (n_features a) (X0, y0, g0) = Inr (X1, y1, g1)"
    and sX: "shape X1 = [nat (n_samples a), nat (n_features a)]"
    and sy: "shape y1 = [nat (n_samples a), nat (n_targets a)]"
    and sg: "shape g1 = [nat (n_features a), nat (n_targets a)]"
    and eX: "\<And>i j. i < nat (n_samples a) \<Longrightarrow> j < nat (n_features a) \<Longrightarrow>
               elem X1 [i, j] = elem X0 [si ! i, fi ! j]"
    and ey: "\<And>i t. i < nat (n_samples a) \<Longrightarrow> elem y1 [i, t] = elem y0 [si ! i, t]"
    and eg: "\<And>j t. j < nat (n_features a) \<Longrightarrow> elem g1 [j, t] = elem g0 [fi ! j, t]"
    unfolding si_def fi_def
    using permute_data_valid[OF st s(1) s(2) s(3) s(4) s(5)] by metis
  define r where "r = \<lparr>result_X = X1, result_y = squeeze y1,
     result_coef = (if coef a then Some (squeeze g1) else None)\<rparr>"
  have ret: "make_regression eng a st = Inr r"
    by (simp add: make_regression_def gen sh p r_def)
  have rows: "mset (matrix_rows X1) = image_mset (\<lambda>row. map ((!) row) fi) (mset (matrix_rows X0))"
    using mset_permuted_rows[OF s(1) sX msi mfi eX] .
  have corr: "(\<Sum>j \<leftarrow> [0..<nat (n_features a)]. elem X1 [i, j] * elem g1 [j, t])
                 = (\<Sum>j \<leftarrow> [0..<nat (n_features a)]. elem X0 [si ! i, j] * elem g0 [j, t])"
    if i: "i < nat (n_samples a)" for i t
  proof -
    have "(\<Sum>j \<leftarrow> [0..<nat (n_features a)]. elem X1 [i, j] * elem g1 [j, t])
            = (\<Sum>j \<leftarrow> [0..<nat (n_features a)]. elem X0 [si ! i, fi ! j] * elem g0 [fi ! j, t])"
      by (rule arg_cong[where f = sum_list], rule map_cong[OF refl]) (simp add: eX[OF i] eg)
    also have "\<dots> = (\<Sum>k \<leftarrow> fi. elem X0 [si ! i, k] * elem g0 [k, t])"
      using map_nth_indices[of "\<lambda>k. elem X0 [si ! i, k] * elem g0 [k, t]" fi] by (simp add: lfi)
    also have "\<dots> = (\<Sum>k \<leftarrow> [0..<nat (n_features a)]. elem X0 [si ! i, k] * elem g0 [k, t])"
      by (rule sum_list_map_mset_cong[OF mfi])
    finally show ?thesis .
  qed
  show ?thesis
    apply (rule exI[of _ r], rule exI[of _ y1], rule exI[of _ g1])
    unfolding si_def[symmetric] fi_def[symmetric]
    using ret msi mfi sX sy sg eX ey eg rows corr s(1,2,3)
    by (simp add: r_def)
qed

theorem shuffle_permutes_consistently_witness:
  "valid_numpy_state reversing_state
   \<and> (\<exists>X0 y0 g0 r.
         generate_data sample_engine 1 2 2 1 0 None 0.5 0 PyNone 1 None ''float32''
           = Inr (X0, y0, g0)
       \<and> make_regression sample_engine
           (default_args\<lparr>n_samples := 1, n_features := 2, n_informative := 2, shuffle := True\<rparr>)
           reversing_state = Inr r
       \<and> shape (result_X r) = shape X0
       \<and> (\<forall>i j. i < 1 \<and> j < 2 \<longrightarrow>
             elem (result_X r) [i, j]
               = elem X0 [reversing_state 0 1 ! i, reversing_state (Suc 0) 2 ! j])
       \<and> mset (matrix_rows (result_X r))
           = image_mset (\<lambda>row. map ((!) row) (reversing_state (Suc 0) 2)) (mset (matrix_rows X0)))"
proof -
  define a where "a = default_args\<lparr>n_samples := 1, n_features := 2, n_informative := 2,
     shuffle := True\<rparr>"
  have f: "n_samples a = 1" "n_features a = 2" "n_informative a = 2" "n_targets a = 1"
    "bias a = 0" "effective_rank a = None" "tail_strength a = 0.5" "noise a = 0"
    "random_state a = PyNone" "n_parts a = 1" "n_samples_per_part a = None"
    "dtype a = ''float32''" "shuffle a"
    by (simp_all add: a_def default_args_def)
  obtain X0 y0 g0 where
    gen: "generate_data sample_engine 1 2 2 1 0 None 0.5 0 PyNone 1 None ''float32''
            = Inr (X0, y0, g0)"
    by (simp add: model_defs)
  have gen': "generate_data sample_engine (n_samples a) (n_features a) (n_informative a)
        (n_targets a) (bias a) (effective_rank a) (tail_strength a) (noise a) (random_state a)
        (n_parts a) (n_samples_per_part a) (dtype a) = Inr (X0, y0, g0)"
    using gen by (simp only: f)
  obtain r where "make_regression sample_engine a reversing_state = Inr r"
    and "shape (result_X r) = shape X0"
    and "\<forall>i j. i < nat (n_samples a) \<and> j < nat (n_features a) \<longrightarrow>
               elem (result_X r) [i, j]
                 = elem X0 [reversing_state 0 (nat (n_samples a)) ! i,
                            reversing_state (Suc 0) (nat (n_features a)) ! j]"
    and "mset (matrix_rows (result_X r))
             = image_mset (\<lambda>row. map ((!) row) (reversing_state (Suc 0) (nat (n_features a))))
                 (mset (matrix_rows X0))"
    using shuffle_permutes_consistently[OF gen' f(13) valid_reversing_state] by blast
  then show ?thesis
    using gen valid_reversing_state unfolding a_def[symmetric] by (auto simp: f)
qed

end
